theory Spec2Isabelle
  imports Complex_Main
begin

section \<open>Numbers\<close>

text \<open>
  The planner computes in IEEE doubles. A finite double is modelled as a \<^typ>\<open>real\<close>
  and there is no NaN. Arithmetic is exact, with one exception: the synchronizer's
  \<^verbatim>\<open>std::ceil(x / delta_time) * delta_time\<close>, where the rounding of the quotient moves
  the result by a whole \<open>delta_time\<close>, rounds as the double arithmetic does
  (\<open>round_double\<close>, with the synchronizer). \<open>eps\<close> is
  \<^verbatim>\<open>std::numeric_limits<double>::epsilon()\<close>.
\<close>

definition eps :: real where
  "eps = 1 / 2 ^ 52"

section \<open>Profile\<close>

text \<open>
  Modelled from the spec: the declarations of \<^verbatim>\<open>Profile\<close> and of its brake sub-profile
  (profile.hpp and brake.hpp are not among the sources). The fields are the ones that
  block.hpp and trajectory.hpp read and write; the arrays \<^verbatim>\<open>t, j, a, v, p\<close> are
  suffixed \<open>_arr\<close>, the brake's fields are prefixed \<open>brake_\<close>.
\<close>

datatype Direction = UP | DOWN

datatype Limits = ACC0_ACC1_VEL | VEL | ACC0 | ACC1 | ACC0_ACC1 | ACC0_VEL | ACC1_VEL | NONE

datatype JerkSigns = UDDU | UDUD

record BrakeProfile =
  brake_duration :: real
  brake_t :: "real list"
  brake_j :: "real list"
  brake_a :: "real list"
  brake_v :: "real list"
  brake_p :: "real list"

record Profile =
  t_arr :: "real list"
  t_sum :: "real list"
  j_arr :: "real list"
  a_arr :: "real list"
  v_arr :: "real list"
  p_arr :: "real list"
  pf :: real
  vf :: real
  af :: real
  limits :: Limits
  direction :: Direction
  jerk_signs :: JerkSigns
  brake :: BrakeProfile

text \<open>
  Modelled from the spec: \<^verbatim>\<open>Profile::integrate(t, p0, v0, a0, j)\<close>, the integration of
  one constant-jerk segment over the duration \<open>t\<close>; it returns position, velocity and
  acceleration.
\<close>

definition integrate :: "real \<Rightarrow> real \<Rightarrow> real \<Rightarrow> real \<Rightarrow> real \<Rightarrow> real \<times> real \<times> real" where
  "integrate t p0 v0 a0 j =
     (p0 + v0 * t + a0 * t\<^sup>2 / 2 + j * t ^ 3 / 6,
      v0 + a0 * t + j * t\<^sup>2 / 2,
      a0 + j * t)"

section \<open>Block\<close>

record Interval =
  i_left :: real
  i_right :: real
  i_profile :: Profile

record Block =
  p_min :: Profile
  t_min :: real
  blk_a :: "Interval option"
  blk_b :: "Interval option"

text \<open>
  \<^verbatim>\<open>Block::add_interval\<close> writes the interval into an optional passed by reference;
  here it returns the interval and the caller stores it.
\<close>

definition add_interval :: "Profile \<Rightarrow> Profile \<Rightarrow> Interval" where
  "add_interval lft rgt =
     (let left_duration = t_sum lft ! 6 + brake_duration (brake lft);
          right_duraction = t_sum rgt ! 6 + brake_duration (brake rgt)
      in if left_duration < right_duraction
         then \<lparr>i_left = left_duration, i_right = right_duraction, i_profile = rgt\<rparr>
         else \<lparr>i_left = right_duraction, i_right = left_duration, i_profile = lft\<rparr>)"

text \<open>
  \<^verbatim>\<open>Block::remove_profile\<close> shifts the entries after \<open>index\<close> down by one and
  decrements the counter; array and counter are returned.
\<close>

definition remove_profile :: "Profile list \<Rightarrow> nat \<Rightarrow> nat \<Rightarrow> Profile list \<times> nat" where
  "remove_profile valid_profiles valid_profile_counter index =
     (fold (\<lambda>i vp. vp[i := vp ! (i + 1)]) [index ..< valid_profile_counter - 1] valid_profiles,
      valid_profile_counter - 1)"

text \<open>The constructor \<^verbatim>\<open>Block(const Profile& p_min)\<close>; both optionals start empty.\<close>

definition Block_of :: "Profile \<Rightarrow> Block" where
  "Block_of p =
     \<lparr>p_min = p, t_min = t_sum p ! 6 + brake_duration (brake p), blk_a = None, blk_b = None\<rparr>"

text \<open>
  \<^verbatim>\<open>std::min_element\<close> over the first \<open>n\<close> entries with the comparison
  \<^verbatim>\<open>a.t_sum[6] < b.t_sum[6]\<close>: the index of the first smallest entry.
\<close>

definition min_element_idx :: "Profile list \<Rightarrow> nat \<Rightarrow> nat" where
  "min_element_idx valid_profiles n =
     fold (\<lambda>i smallest. if t_sum (valid_profiles ! i) ! 6 < t_sum (valid_profiles ! smallest) ! 6
                          then i else smallest)
          [1 ..< n] 0"

text \<open>
  The part of \<^verbatim>\<open>calculate_block\<close> after the chain on the counter: the fastest profile
  becomes \<open>p_min\<close>, the others are paired into intervals. The block has been assigned
  when the function returns false here.
\<close>

definition assemble_block :: "Profile list \<Rightarrow> nat \<Rightarrow> bool \<times> Block" where
  "assemble_block valid_profiles valid_profile_counter =
     (let idx_min = min_element_idx valid_profiles valid_profile_counter;
          block = Block_of (valid_profiles ! idx_min)
      in if valid_profile_counter = 3 then
           (let idx_else_1 = (idx_min + 1) mod 3;
                idx_else_2 = (idx_min + 2) mod 3
            in (True, block\<lparr>blk_a := Some (add_interval (valid_profiles ! idx_else_1)
                                                           (valid_profiles ! idx_else_2))\<rparr>))
         else if valid_profile_counter = 5 then
           (let idx_else_1 = (idx_min + 1) mod 5;
                idx_else_2 = (idx_min + 2) mod 5;
                idx_else_3 = (idx_min + 3) mod 5;
                idx_else_4 = (idx_min + 4) mod 5
            in if direction (valid_profiles ! idx_else_1) = direction (valid_profiles ! idx_else_2)
               then (True, block\<lparr>blk_a := Some (add_interval (valid_profiles ! idx_else_1)
                                                                 (valid_profiles ! idx_else_2)),
                                  blk_b := Some (add_interval (valid_profiles ! idx_else_3)
                                                                 (valid_profiles ! idx_else_4))\<rparr>)
               else (True, block\<lparr>blk_a := Some (add_interval (valid_profiles ! idx_else_1)
                                                                 (valid_profiles ! idx_else_4)),
                                  blk_b := Some (add_interval (valid_profiles ! idx_else_2)
                                                                 (valid_profiles ! idx_else_3))\<rparr>))
         else (False, block))"

text \<open>
  \<^verbatim>\<open>Block::calculate_block<N, numerical_robust>(block, valid_profiles, valid_profile_counter)\<close>.
  The block is passed by reference: the model takes the caller's block and returns the
  result together with the block as the call leaves it.
\<close>

definition calculate_block :: "bool \<Rightarrow> Block \<Rightarrow> Profile list \<Rightarrow> nat \<Rightarrow> bool \<times> Block" where
  "calculate_block numerical_robust block valid_profiles valid_profile_counter =
     (if valid_profile_counter = 1 then (True, Block_of (valid_profiles ! 0))
      else if valid_profile_counter = 2 then
        (if \<bar>t_sum (valid_profiles ! 0) ! 6 - t_sum (valid_profiles ! 1) ! 6\<bar> < 8 * eps
         then (True, Block_of (valid_profiles ! 0))
         else if numerical_robust then
           (let idx_min = (if t_sum (valid_profiles ! 0) ! 6 < t_sum (valid_profiles ! 1) ! 6
                           then 0 else 1 :: nat);
                idx_else_1 = (idx_min + 1) mod 2
            in (True, (Block_of (valid_profiles ! idx_min))
                        \<lparr>blk_a := Some (add_interval (valid_profiles ! idx_min)
                                                     (valid_profiles ! idx_else_1))\<rparr>))
         else assemble_block valid_profiles valid_profile_counter)
      else if valid_profile_counter = 4 then
        (if \<bar>t_sum (valid_profiles ! 0) ! 6 - t_sum (valid_profiles ! 1) ! 6\<bar> < 32 * eps
            \<and> direction (valid_profiles ! 0) \<noteq> direction (valid_profiles ! 1)
         then (case remove_profile valid_profiles valid_profile_counter 1 of
                 (vp, n) \<Rightarrow> assemble_block vp n)
         else if \<bar>t_sum (valid_profiles ! 2) ! 6 - t_sum (valid_profiles ! 3) ! 6\<bar> < 256 * eps
            \<and> direction (valid_profiles ! 2) \<noteq> direction (valid_profiles ! 3)
         then (case remove_profile valid_profiles valid_profile_counter 3 of
                 (vp, n) \<Rightarrow> assemble_block vp n)
         else if \<bar>t_sum (valid_profiles ! 0) ! 6 - t_sum (valid_profiles ! 3) ! 6\<bar> < 256 * eps
            \<and> direction (valid_profiles ! 0) \<noteq> direction (valid_profiles ! 3)
         then (case remove_profile valid_profiles valid_profile_counter 3 of
                 (vp, n) \<Rightarrow> assemble_block vp n)
         else (False, block))
      else if valid_profile_counter mod 2 = 0 then (False, block)
      else assemble_block valid_profiles valid_profile_counter)"

definition is_blocked :: "Block \<Rightarrow> real \<Rightarrow> bool" where
  "is_blocked block t =
     (t < t_min block
      \<or> (case blk_a block of None \<Rightarrow> False | Some a \<Rightarrow> i_left a < t \<and> t < i_right a)
      \<or> (case blk_b block of None \<Rightarrow> False | Some b \<Rightarrow> i_left b < t \<and> t < i_right b))"

section \<open>Input and trajectory\<close>

text \<open>
  Modelled from the spec: the enumerations and \<^verbatim>\<open>InputParameter\<close> of
  input_parameter.hpp, which is not among the sources; the fields are the ones
  trajectory.hpp reads. \<^verbatim>\<open>Synchronization::None\<close> is written \<open>No_Sync\<close>.
\<close>

datatype ControlInterface = Position | Velocity

datatype Synchronization = Time | TimeIfNecessary | Phase | No_Sync

datatype DurationDiscretization = Continuous | Discrete

datatype Result =
  Working | Error | ErrorTrajectoryDuration | ErrorExecutionTimeCalculation
  | ErrorSynchronizationCalculation

record InputParameter =
  control_interface :: ControlInterface
  synchronization :: Synchronization
  duration_discretization :: DurationDiscretization
  current_position :: "real list"
  current_velocity :: "real list"
  current_acceleration :: "real list"
  target_position :: "real list"
  target_velocity :: "real list"
  target_acceleration :: "real list"
  max_velocity :: "real list"
  max_acceleration :: "real list"
  max_jerk :: "real list"
  min_velocity :: "real list option"
  min_acceleration :: "real list option"
  enabled :: "bool list"
  per_dof_control_interface :: "ControlInterface list option"
  per_dof_synchronization :: "Synchronization list option"
  minimum_duration :: "real option"

text \<open>
  The calls that leave trajectory.hpp, each with the DoF it is made for. The trajectory
  carries them in the ghost field \<open>trace\<close>, in the order they are made.
\<close>

datatype call = Call_Brake nat | Call_Step1 nat | Call_Step2 nat | Call_Check nat

text \<open>
  The members of \<^verbatim>\<open>Trajectory<DOFs>\<close>. \<open>DOFs\<close> is the template parameter (0 for a
  number of DoFs fixed at run time). The work arrays \<^verbatim>\<open>possible_t_syncs\<close> and
  \<^verbatim>\<open>idx\<close> are written before they are read in \<^verbatim>\<open>synchronize\<close>, their only user,
  and are local values there.
\<close>

record Trajectory =
  DOFs :: nat
  degrees_of_freedom :: nat
  profiles :: "Profile list"
  duration :: real
  independent_min_durations :: "real list"
  pd :: "real list"
  blocks :: "Block list"
  p0s :: "real list"
  v0s :: "real list"
  a0s :: "real list"
  inp_min_velocity :: "real list"
  inp_min_acceleration :: "real list"
  inp_per_dof_control_interface :: "ControlInterface list"
  inp_per_dof_synchronization :: "Synchronization list"
  new_max_jerk :: "real list"
  trace :: "call list"

text \<open>
  The code trajectory.hpp calls and the sources do not hold: the brake pre-trajectories
  (they fill \<^verbatim>\<open>p.brake.t\<close> and \<^verbatim>\<open>p.brake.j\<close>), Step 1 (from the constructor's
  arguments, the profile and the DoF's block: found or not, the profile and the block as
  the call leaves them), Step 2 (from the constructor's arguments and the profile),
  \<^verbatim>\<open>Profile::set_boundary\<close> and \<^verbatim>\<open>Profile::check_with_timing\<close>, and
  \<^verbatim>\<open>std::sort\<close>, which leaves the order of equal elements open. They are parameters
  of the model.
\<close>

record externals =
  std_sort :: "(nat \<Rightarrow> nat \<Rightarrow> bool) \<Rightarrow> nat list \<Rightarrow> nat list"
  get_position_brake_trajectory :: "real list \<Rightarrow> real list \<Rightarrow> real list \<Rightarrow> real list \<times> real list"
  get_velocity_brake_trajectory :: "real list \<Rightarrow> real list \<Rightarrow> real list \<Rightarrow> real list \<times> real list"
  position_step1 :: "real list \<Rightarrow> Profile \<Rightarrow> Block \<Rightarrow> bool \<times> Profile \<times> Block"
  velocity_step1 :: "real list \<Rightarrow> Profile \<Rightarrow> Block \<Rightarrow> bool \<times> Profile \<times> Block"
  position_step2 :: "real list \<Rightarrow> Profile \<Rightarrow> bool \<times> Profile"
  velocity_step2 :: "real list \<Rightarrow> Profile \<Rightarrow> bool \<times> Profile"
  set_boundary :: "Profile \<Rightarrow> real list \<Rightarrow> Profile"
  check_with_timing :: "JerkSigns \<Rightarrow> Profile \<Rightarrow> real list \<Rightarrow> bool \<times> Profile"

text \<open>
  What a call of \<^verbatim>\<open>calculate\<close> does: it returns a result code, it throws
  \<^verbatim>\<open>std::runtime_error\<close>, or it leaves the model: an index out of range, an empty
  optional dereferenced, or a double that is not finite.
\<close>

datatype outcome = Returned Result | Thrown | Undefined

section \<open>Synchronizer\<close>

text \<open>
  An entry of \<^verbatim>\<open>possible_t_syncs\<close>: a finite duration, \<open>+\<infinity>\<close>, or \<open>-\<infinity>\<close> (a
  quotient by \<open>delta_time\<close> that overflows).
\<close>

datatype tsync = Fin real | PInf | NInf

fun tsync_less :: "tsync \<Rightarrow> tsync \<Rightarrow> bool" where
  "tsync_less (Fin x) (Fin y) = (x < y)"
| "tsync_less (Fin x) PInf = True"
| "tsync_less (Fin x) NInf = False"
| "tsync_less PInf y = False"
| "tsync_less NInf (Fin y) = True"
| "tsync_less NInf PInf = True"
| "tsync_less NInf NInf = False"

subsection \<open>Rounding to the nearest double\<close>

text \<open>
  The result of a division or multiplication of doubles is the exact result rounded to
  the nearest double, ties to the even significand (IEEE 754 binary64, the default
  rounding mode). \<open>bit_length n\<close> is the number of binary digits of a positive integer,
  \<open>binary_exponent a\<close> the exponent \<open>e\<close> with \<open>2^e \<le> a < 2^(e + 1)\<close> of a positive
  \<open>a\<close>. A double has a significand of 53 bits: with the exponent \<open>e\<close> of \<open>\<bar>x\<bar>\<close>, and
  \<open>-1022\<close> for the subnormal numbers under \<open>2^(-1022)\<close>, the doubles around \<open>x\<close> are the
  multiples of \<open>2^(e - 52)\<close>. A rounded value of \<open>2^1024\<close> or more is an infinity.
\<close>

function bit_length :: "int \<Rightarrow> int" where
  "bit_length n = (if n \<le> 0 then 0 else 1 + bit_length (n div 2))"
  by pat_completeness auto
termination
proof (relation "measure nat")
  show "wf (measure nat)" by simp
next
  fix n :: int
  assume "\<not> n \<le> 0"
  then have "nat (n div 2) < nat n" by simp
  then show "(n div 2, n) \<in> measure nat" by simp
qed

declare bit_length.simps [simp del]

definition two_power :: "int \<Rightarrow> real" where
  "two_power e = (if 0 \<le> e then 2 ^ nat e else 1 / 2 ^ nat (- e))"

definition binary_exponent :: "real \<Rightarrow> int" where
  "binary_exponent a =
     (if 1 \<le> a then bit_length \<lfloor>a\<rfloor> - 1 else - bit_length (\<lceil>1 / a\<rceil> - 1))"

definition round_half_even :: "real \<Rightarrow> int" where
  "round_half_even y =
     (let f = \<lfloor>y\<rfloor>; d = y - of_int f
      in if d < 1 / 2 then f else if 1 / 2 < d then f + 1 else if even f then f else f + 1)"

definition round_double :: "real \<Rightarrow> tsync" where
  "round_double x =
     (if x = 0 then Fin 0
      else
        (let e = max (binary_exponent \<bar>x\<bar>) (- 1022)
         in if 1023 < e then (if 0 < x then PInf else NInf)
            else
              (let ulp = two_power (e - 52);
                   m = round_half_even (\<bar>x\<bar> / ulp)
               in if e = 1023 \<and> m = 2 ^ 53 then (if 0 < x then PInf else NInf)
                  else Fin (sgn x * of_int m * ulp))))"

text \<open>
  \<^verbatim>\<open>std::ceil(x / delta_time) * delta_time\<close> for a \<open>delta_time\<close> other than 0: the
  quotient is rounded to a double, \<^verbatim>\<open>std::ceil\<close> of a double is exact, and the product
  is rounded again. An infinite quotient keeps its sign under \<^verbatim>\<open>std::ceil\<close> and is
  multiplied with \<open>delta_time\<close>; an infinite entry divided by and multiplied with
  \<open>delta_time\<close> is the same infinity. (With \<open>delta_time = 0\<close> every entry becomes NaN;
  see \<open>synchronize\<close>.)
\<close>

fun round_up :: "real \<Rightarrow> tsync \<Rightarrow> tsync" where
  "round_up delta_time (Fin x) =
     (case round_double (x / delta_time) of
        Fin q \<Rightarrow> round_double (of_int \<lceil>q\<rceil> * delta_time)
      | PInf \<Rightarrow> (if 0 < delta_time then PInf else NInf)
      | NInf \<Rightarrow> (if 0 < delta_time then NInf else PInf))"
| "round_up delta_time PInf = PInf"
| "round_up delta_time NInf = NInf"

subsection \<open>The candidates and the scan\<close>

definition possible_t_syncs ::
  "nat \<Rightarrow> Block list \<Rightarrow> real option \<Rightarrow> bool \<Rightarrow> real \<Rightarrow> tsync list" where
  "possible_t_syncs dofs blks t_min_opt discrete_duration delta_time =
     (let cands =
            map (\<lambda>dof. Fin (t_min (blks ! dof))) [0 ..< dofs]
            @ map (\<lambda>dof. case blk_a (blks ! dof) of Some a \<Rightarrow> Fin (i_right a) | None \<Rightarrow> PInf)
                [0 ..< dofs]
            @ map (\<lambda>dof. case blk_b (blks ! dof) of Some b \<Rightarrow> Fin (i_right b) | None \<Rightarrow> PInf)
                [0 ..< dofs]
            @ [case t_min_opt of Some f \<Rightarrow> Fin f | None \<Rightarrow> PInf]
      in if discrete_duration then map (round_up delta_time) cands else cands)"

definition any_interval :: "nat \<Rightarrow> Block list \<Rightarrow> real option \<Rightarrow> bool" where
  "any_interval dofs blks t_min_opt =
     (list_ex (\<lambda>dof. blk_a (blks ! dof) \<noteq> None \<or> blk_b (blks ! dof) \<noteq> None) [0 ..< dofs]
      \<or> t_min_opt \<noteq> None)"

text \<open>
  The test of the scanning loop: the candidate is skipped when a block blocks it or it
  lies under the floor (\<^verbatim>\<open>t_min.value_or(0.0)\<close>). No comparison with \<open>+\<infinity>\<close>
  on the left holds; \<open>-\<infinity>\<close> lies under the floor.
\<close>

fun skipped :: "Block list \<Rightarrow> real option \<Rightarrow> tsync \<Rightarrow> bool" where
  "skipped blks t_min_opt (Fin possible_t_sync) =
     (list_ex (\<lambda>block. is_blocked block possible_t_sync) blks
      \<or> possible_t_sync < (case t_min_opt of Some f \<Rightarrow> f | None \<Rightarrow> 0))"
| "skipped blks t_min_opt PInf = False"
| "skipped blks t_min_opt NInf = True"

fun sync_scan :: "Block list \<Rightarrow> real option \<Rightarrow> tsync list \<Rightarrow> nat list \<Rightarrow> (nat \<times> tsync) option" where
  "sync_scan blks t_min_opt cands [] = None"
| "sync_scan blks t_min_opt cands (i # rest) =
     (if skipped blks t_min_opt (cands ! i) then sync_scan blks t_min_opt cands rest
      else Some (i, cands ! i))"

text \<open>
  The result of \<^verbatim>\<open>synchronize\<close>: false, with \<open>t_sync\<close>, \<open>limiting_dof\<close> and the
  profiles untouched; true, with the three as written; or the scan stops at an infinite
  candidate, where the source stores an infinite duration or reads the profile of an
  absent interval, where it starts before the index array (no DoF), and where the
  candidates are NaN (a quantum of 0).
\<close>

datatype sync_result = Sync_False | Sync_True real int "Profile list" | Sync_Undefined

definition synchronize ::
  "((nat \<Rightarrow> nat \<Rightarrow> bool) \<Rightarrow> nat list \<Rightarrow> nat list) \<Rightarrow> nat \<Rightarrow> Block list \<Rightarrow> real option
   \<Rightarrow> Profile list \<Rightarrow> bool \<Rightarrow> real \<Rightarrow> sync_result" where
  "synchronize srt dofs blks t_min_opt profs discrete_duration delta_time =
     (if dofs = 1 \<and> t_min_opt = None \<and> \<not> discrete_duration
      then Sync_True (t_min (blks ! 0)) 0 (profs[0 := p_min (blks ! 0)])
      else if dofs = 0 \<or> discrete_duration \<and> delta_time = 0 then Sync_Undefined
      else
        (let cands = possible_t_syncs dofs blks t_min_opt discrete_duration delta_time;
             idx_end = (if any_interval dofs blks t_min_opt then 3 * dofs + 1 else dofs);
             idx = srt (\<lambda>i j. tsync_less (cands ! i) (cands ! j)) [0 ..< idx_end]
         in case sync_scan blks t_min_opt cands (drop (dofs - 1) idx) of
              None \<Rightarrow> Sync_False
            | Some (i, PInf) \<Rightarrow> Sync_Undefined
            | Some (i, NInf) \<Rightarrow> Sync_Undefined
            | Some (i, Fin possible_t_sync) \<Rightarrow>
                if i = 3 * dofs then Sync_True possible_t_sync (- 1) profs
                else
                  (let limiting_dof = i mod dofs;
                       quot = i div dofs
                   in if quot = 0
                      then Sync_True possible_t_sync (int limiting_dof)
                             (profs[limiting_dof := p_min (blks ! limiting_dof)])
                      else if quot = 1
                      then (case blk_a (blks ! limiting_dof) of
                              None \<Rightarrow> Sync_Undefined
                            | Some a \<Rightarrow> Sync_True possible_t_sync (int limiting_dof)
                                         (profs[limiting_dof := i_profile a]))
                      else if quot = 2
                      then (case blk_b (blks ! limiting_dof) of
                              None \<Rightarrow> Sync_Undefined
                            | Some b \<Rightarrow> Sync_True possible_t_sync (int limiting_dof)
                                         (profs[limiting_dof := i_profile b]))
                      else Sync_True possible_t_sync (int limiting_dof) profs)))"

text \<open>
  An executable \<^verbatim>\<open>std::sort\<close>: insertion sort, which keeps equal elements in their
  order.
\<close>

fun insert_by :: "('a \<Rightarrow> 'a \<Rightarrow> bool) \<Rightarrow> 'a \<Rightarrow> 'a list \<Rightarrow> 'a list" where
  "insert_by lt x [] = [x]"
| "insert_by lt x (y # ys) = (if lt y x then y # insert_by lt x ys else x # y # ys)"

definition insertion_sort :: "('a \<Rightarrow> 'a \<Rightarrow> bool) \<Rightarrow> 'a list \<Rightarrow> 'a list" where
  "insertion_sort lt xs = foldr (insert_by lt) xs []"

section \<open>Planner\<close>

text \<open>
  The brake pre-trajectory is integrated segment by segment while the segment's duration
  is positive: \<^verbatim>\<open>for (i = 0; i < 2 && p.brake.t[i] > 0; ++i)\<close>.
\<close>

definition brake_step ::
  "nat \<Rightarrow> BrakeProfile \<times> real \<times> real \<times> real \<Rightarrow> BrakeProfile \<times> real \<times> real \<times> real" where
  "brake_step i s =
     (case s of (br, p0, v0, a0) \<Rightarrow>
        (case integrate (brake_t br ! i) p0 v0 a0 (brake_j br ! i) of (p1, v1, a1) \<Rightarrow>
           (br\<lparr>brake_p := (brake_p br)[i := p0], brake_v := (brake_v br)[i := v0],
               brake_a := (brake_a br)[i := a0]\<rparr>, p1, v1, a1)))"

definition integrate_brake ::
  "BrakeProfile \<Rightarrow> real \<Rightarrow> real \<Rightarrow> real \<Rightarrow> BrakeProfile \<times> real \<times> real \<times> real" where
  "integrate_brake br p0 v0 a0 =
     (if 0 < brake_t br ! 0
      then (let s = brake_step 0 (br, p0, v0, a0)
            in if 0 < brake_t br ! 1 then brake_step 1 s else s)
      else (br, p0, v0, a0))"

text \<open>
  One round of the first loop of \<^verbatim>\<open>calculate\<close>: the flag is false when Step 1 found no
  profile, and the trajectory is as the round leaves it.
\<close>

definition calculate_dof :: "externals \<Rightarrow> InputParameter \<Rightarrow> nat \<Rightarrow> Trajectory \<Rightarrow> bool \<times> Trajectory" where
  "calculate_dof ext inp dof tr =
     (let p = profiles tr ! dof in
      if \<not> enabled inp ! dof then
        (True, tr\<lparr>profiles := (profiles tr)[dof := p\<lparr>pf := current_position inp ! dof,
                                                     vf := current_velocity inp ! dof,
                                                     af := current_acceleration inp ! dof,
                                                     t_sum := (t_sum p)[6 := 0]\<rparr>]\<rparr>)
      else
        (let min_v = (case min_velocity inp of Some mv \<Rightarrow> mv ! dof
                      | None \<Rightarrow> - (max_velocity inp ! dof));
             min_a = (case min_acceleration inp of Some ma \<Rightarrow> ma ! dof
                      | None \<Rightarrow> - (max_acceleration inp ! dof));
             ci = (case per_dof_control_interface inp of Some c \<Rightarrow> c ! dof
                   | None \<Rightarrow> control_interface inp);
             sy = (case per_dof_synchronization inp of Some sn \<Rightarrow> sn ! dof
                   | None \<Rightarrow> synchronization inp);
             tj = (case ci of
                     Position \<Rightarrow>
                       get_position_brake_trajectory ext
                         [current_velocity inp ! dof, current_acceleration inp ! dof,
                          max_velocity inp ! dof, min_v, max_acceleration inp ! dof, min_a,
                          max_jerk inp ! dof]
                         (brake_t (brake p)) (brake_j (brake p))
                   | Velocity \<Rightarrow>
                       get_velocity_brake_trajectory ext
                         [current_acceleration inp ! dof, max_acceleration inp ! dof, min_a,
                          max_jerk inp ! dof]
                         (brake_t (brake p)) (brake_j (brake p)));
             br = (brake p)\<lparr>brake_t := fst tj, brake_j := snd tj,
                             brake_duration := fst tj ! 0 + fst tj ! 1\<rparr>;
             st = integrate_brake br (current_position inp ! dof) (current_velocity inp ! dof)
                    (current_acceleration inp ! dof);
             p0 = fst (snd st);
             v0 = fst (snd (snd st));
             a0 = snd (snd (snd st));
             p1 = p\<lparr>brake := fst st\<rparr>;
             s1 = (case ci of
                     Position \<Rightarrow>
                       position_step1 ext
                         [p0, v0, a0, target_position inp ! dof, target_velocity inp ! dof,
                          target_acceleration inp ! dof, max_velocity inp ! dof, min_v,
                          max_acceleration inp ! dof, min_a, max_jerk inp ! dof]
                         p1 (blocks tr ! dof)
                   | Velocity \<Rightarrow>
                       velocity_step1 ext
                         [p0, v0, a0, target_velocity inp ! dof, target_acceleration inp ! dof,
                          max_acceleration inp ! dof, min_a, max_jerk inp ! dof]
                         p1 (blocks tr ! dof));
             found_profile = fst s1;
             block = snd (snd s1);
             tr1 = tr\<lparr>inp_min_velocity := (inp_min_velocity tr)[dof := min_v],
                      inp_min_acceleration := (inp_min_acceleration tr)[dof := min_a],
                      inp_per_dof_control_interface := (inp_per_dof_control_interface tr)[dof := ci],
                      inp_per_dof_synchronization := (inp_per_dof_synchronization tr)[dof := sy],
                      p0s := (p0s tr)[dof := p0],
                      v0s := (v0s tr)[dof := v0],
                      a0s := (a0s tr)[dof := a0],
                      profiles := (profiles tr)[dof := fst (snd s1)],
                      blocks := (blocks tr)[dof := block],
                      trace := trace tr @ [Call_Brake dof, Call_Step1 dof]\<rparr>
         in if \<not> found_profile then (False, tr1)
            else (True, tr1\<lparr>independent_min_durations :=
                              (independent_min_durations tr)
                                [dof := brake_duration (brake (p_min block)) + t_min block]\<rparr>)))"

fun calculate_step1 :: "externals \<Rightarrow> InputParameter \<Rightarrow> nat list \<Rightarrow> Trajectory \<Rightarrow> bool \<times> Trajectory" where
  "calculate_step1 ext inp [] tr = (True, tr)"
| "calculate_step1 ext inp (dof # dofs) tr =
     (case calculate_dof ext inp dof tr of
        (found_profile, tr1) \<Rightarrow>
          if found_profile then calculate_step1 ext inp dofs tr1 else (False, tr1))"

text \<open>
  The loop "None Synchronization". \<open>limiting_dof\<close> is an \<^verbatim>\<open>int\<close>, \<open>-1\<close> when the
  floor limits; no DoF equals it then.
\<close>

definition none_synchronization :: "InputParameter \<Rightarrow> int \<Rightarrow> Trajectory \<Rightarrow> Trajectory" where
  "none_synchronization inp limiting_dof tr =
     fold (\<lambda>dof tr1.
             if enabled inp ! dof \<and> int dof \<noteq> limiting_dof
                \<and> inp_per_dof_synchronization tr1 ! dof = No_Sync
             then tr1\<lparr>profiles := (profiles tr1)[dof := p_min (blocks tr1 ! dof)]\<rparr>
             else tr1)
          [0 ..< length (blocks tr)] tr"

text \<open>
  \<^verbatim>\<open>is_input_collinear\<close>. Its first loop writes \<open>pd\<close> and takes the scales of the
  first Phase DoF that moves; its second loop tests every other Phase DoF and writes
  \<open>new_max_jerk\<close>. The quotient \<^verbatim>\<open>pd[dof] / pd[limiting_dof]\<close> is not finite when
  the limiting DoF does not move: the model stops there.
\<close>

datatype collinear = Collinear | Not_Collinear | Not_Finite

definition collinear_scales ::
  "InputParameter \<Rightarrow> Trajectory \<Rightarrow> real list \<times> (real \<times> real \<times> real \<times> real) option" where
  "collinear_scales inp tr =
     fold (\<lambda>dof s.
             if inp_per_dof_synchronization tr ! dof \<noteq> Phase then s
             else
               (let d = target_position inp ! dof - current_position inp ! dof;
                    pds = (fst s)[dof := d]
                in if snd s = None \<and> eps < \<bar>d\<bar>
                   then (pds, Some (current_velocity inp ! dof / d,
                                    current_acceleration inp ! dof / d,
                                    target_velocity inp ! dof / d,
                                    target_acceleration inp ! dof / d))
                   else (pds, snd s)))
          [0 ..< length (pd tr)] (pd tr, None)"

fun collinear_check ::
  "InputParameter \<Rightarrow> real \<times> real \<times> real \<times> real \<Rightarrow> real \<Rightarrow> nat \<Rightarrow> nat list \<Rightarrow> Trajectory
   \<Rightarrow> collinear \<times> Trajectory" where
  "collinear_check inp sc max_jerk_limiting limiting_dof [] tr = (Collinear, tr)"
| "collinear_check inp sc max_jerk_limiting limiting_dof (dof # dofs) tr =
     (if dof = limiting_dof \<or> inp_per_dof_synchronization tr ! dof \<noteq> Phase
      then collinear_check inp sc max_jerk_limiting limiting_dof dofs tr
      else
        (case sc of (v0_scale, a0_scale, vf_scale, af_scale) \<Rightarrow>
           if 10 * eps < \<bar>current_velocity inp ! dof - v0_scale * pd tr ! dof\<bar>
              \<or> 10 * eps < \<bar>current_acceleration inp ! dof - a0_scale * pd tr ! dof\<bar>
              \<or> 10 * eps < \<bar>target_velocity inp ! dof - vf_scale * pd tr ! dof\<bar>
              \<or> 10 * eps < \<bar>target_acceleration inp ! dof - af_scale * pd tr ! dof\<bar>
           then (Not_Collinear, tr)
           else if pd tr ! limiting_dof = 0 then (Not_Finite, tr)
           else
             (let scale = pd tr ! dof / pd tr ! limiting_dof
              in collinear_check inp sc max_jerk_limiting limiting_dof dofs
                   (tr\<lparr>new_max_jerk := (new_max_jerk tr)[dof := scale * max_jerk_limiting]\<rparr>))))"

definition is_input_collinear ::
  "InputParameter \<Rightarrow> real list \<Rightarrow> Direction \<Rightarrow> nat \<Rightarrow> Trajectory \<Rightarrow> collinear \<times> Trajectory" where
  "is_input_collinear inp jMax limiting_direction limiting_dof tr =
     (case collinear_scales inp tr of
        (pds, None) \<Rightarrow> (Not_Collinear, tr\<lparr>pd := pds\<rparr>)
      | (pds, Some sc) \<Rightarrow>
          collinear_check inp sc
            (if limiting_direction = UP then jMax ! limiting_dof else - (jMax ! limiting_dof))
            limiting_dof [0 ..< length pds] (tr\<lparr>pd := pds\<rparr>))"

text \<open>
  One round of the loop of the phase synchronization: the flag
  \<^verbatim>\<open>found_time_synchronization\<close> and the trajectory. A failed check does not end the
  loop.
\<close>

definition phase_sync_dof ::
  "externals \<Rightarrow> InputParameter \<Rightarrow> nat \<Rightarrow> nat \<Rightarrow> bool \<times> Trajectory \<Rightarrow> bool \<times> Trajectory" where
  "phase_sync_dof ext inp limiting_dof dof s =
     (case s of (found_time_synchronization, tr) \<Rightarrow>
        if \<not> enabled inp ! dof \<or> dof = limiting_dof
           \<or> inp_per_dof_synchronization tr ! dof \<noteq> Phase
        then (found_time_synchronization, tr)
        else
          (let p = profiles tr ! dof;
               t_profile = duration tr - brake_duration (brake p);
               lim = profiles tr ! limiting_dof;
               p1 = set_boundary ext (p\<lparr>t_arr := t_arr lim, jerk_signs := jerk_signs lim\<rparr>)
                      [current_position inp ! dof, current_velocity inp ! dof,
                       current_acceleration inp ! dof, target_position inp ! dof,
                       target_velocity inp ! dof, target_acceleration inp ! dof];
               chk = check_with_timing ext (jerk_signs p1) p1
                       [t_profile, new_max_jerk tr ! dof, max_velocity inp ! dof,
                        inp_min_velocity tr ! dof, max_acceleration inp ! dof,
                        inp_min_acceleration tr ! dof, max_jerk inp ! dof]
           in (found_time_synchronization \<and> fst chk,
               tr\<lparr>profiles := (profiles tr)[dof := (snd chk)\<lparr>limits := limits lim\<rparr>],
                  trace := trace tr @ [Call_Check dof]\<rparr>)))"

text \<open>
  One round of the loop "Time Synchronization": false when Step 2 was run and failed.
\<close>

definition time_sync_dof ::
  "externals \<Rightarrow> InputParameter \<Rightarrow> int \<Rightarrow> nat \<Rightarrow> Trajectory \<Rightarrow> bool \<times> Trajectory" where
  "time_sync_dof ext inp limiting_dof dof tr =
     (if \<not> enabled inp ! dof \<or> int dof = limiting_dof
         \<or> inp_per_dof_synchronization tr ! dof = No_Sync
      then (True, tr)
      else
        (let p = profiles tr ! dof;
             t_profile = duration tr - brake_duration (brake p);
             block = blocks tr ! dof
         in if inp_per_dof_synchronization tr ! dof = TimeIfNecessary
               \<and> \<bar>target_velocity inp ! dof\<bar> < eps \<and> \<bar>target_acceleration inp ! dof\<bar> < eps
            then (True, tr\<lparr>profiles := (profiles tr)[dof := p_min block]\<rparr>)
            else if \<bar>t_profile - t_min block\<bar> < eps
            then (True, tr\<lparr>profiles := (profiles tr)[dof := p_min block]\<rparr>)
            else if (case blk_a block of None \<Rightarrow> False | Some a \<Rightarrow> \<bar>t_profile - i_right a\<bar> < eps)
            then (True, tr\<lparr>profiles := (profiles tr)[dof := i_profile (the (blk_a block))]\<rparr>)
            else if (case blk_b block of None \<Rightarrow> False | Some b \<Rightarrow> \<bar>t_profile - i_right b\<bar> < eps)
            then (True, tr\<lparr>profiles := (profiles tr)[dof := i_profile (the (blk_b block))]\<rparr>)
            else
              (let s2 = (case inp_per_dof_control_interface tr ! dof of
                           Position \<Rightarrow>
                             position_step2 ext
                               [t_profile, p0s tr ! dof, v0s tr ! dof, a0s tr ! dof,
                                target_position inp ! dof, target_velocity inp ! dof,
                                target_acceleration inp ! dof, max_velocity inp ! dof,
                                inp_min_velocity tr ! dof, max_acceleration inp ! dof,
                                inp_min_acceleration tr ! dof, max_jerk inp ! dof]
                               p
                         | Velocity \<Rightarrow>
                             velocity_step2 ext
                               [t_profile, p0s tr ! dof, v0s tr ! dof, a0s tr ! dof,
                                target_velocity inp ! dof, target_acceleration inp ! dof,
                                max_acceleration inp ! dof, inp_min_acceleration tr ! dof,
                                max_jerk inp ! dof]
                               p)
               in (fst s2, tr\<lparr>profiles := (profiles tr)[dof := snd s2],
                              trace := trace tr @ [Call_Step2 dof]\<rparr>))))"

fun time_synchronization ::
  "externals \<Rightarrow> InputParameter \<Rightarrow> int \<Rightarrow> nat list \<Rightarrow> Trajectory \<Rightarrow> bool \<times> Trajectory" where
  "time_synchronization ext inp limiting_dof [] tr = (True, tr)"
| "time_synchronization ext inp limiting_dof (dof # dofs) tr =
     (case time_sync_dof ext inp limiting_dof dof tr of
        (found_time_synchronization, tr1) \<Rightarrow>
          if found_time_synchronization
          then time_synchronization ext inp limiting_dof dofs tr1
          else (False, tr1))"

definition calculate_time_sync ::
  "externals \<Rightarrow> bool \<Rightarrow> InputParameter \<Rightarrow> int \<Rightarrow> Trajectory \<Rightarrow> outcome \<times> Trajectory" where
  "calculate_time_sync ext throw_error inp limiting_dof tr =
     (case time_synchronization ext inp limiting_dof [0 ..< length (profiles tr)] tr of
        (found_time_synchronization, tr1) \<Rightarrow>
          if found_time_synchronization then (Returned Working, tr1)
          else if throw_error then (Thrown, tr1)
          else (Returned ErrorSynchronizationCalculation, tr1))"

text \<open>
  \<^verbatim>\<open>calculate\<close> after the zero-duration return: the synchronization modes None, Phase
  and Time. With the floor limiting, \<^verbatim>\<open>profiles[limiting_dof]\<close> of the phase
  synchronization reads at index \<open>-1\<close>.
\<close>

definition calculate_modes ::
  "externals \<Rightarrow> bool \<Rightarrow> InputParameter \<Rightarrow> int \<Rightarrow> Trajectory \<Rightarrow> outcome \<times> Trajectory" where
  "calculate_modes ext throw_error inp limiting_dof tr =
     (let tr1 = none_synchronization inp limiting_dof tr in
      if list_all (\<lambda>sn. sn = No_Sync) (inp_per_dof_synchronization tr1)
      then (Returned Working, tr1)
      else if list_ex (\<lambda>sn. sn = Phase) (inp_per_dof_synchronization tr1)
              \<and> list_all (\<lambda>c. c = Position) (inp_per_dof_control_interface tr1)
      then
        (if limiting_dof < 0 \<or> int (length (profiles tr1)) \<le> limiting_dof then (Undefined, tr1)
         else
           (case is_input_collinear inp (max_jerk inp)
                   (direction (profiles tr1 ! nat limiting_dof)) (nat limiting_dof) tr1 of
              (Not_Finite, tr2) \<Rightarrow> (Undefined, tr2)
            | (Not_Collinear, tr2) \<Rightarrow> calculate_time_sync ext throw_error inp limiting_dof tr2
            | (Collinear, tr2) \<Rightarrow>
                (case fold (phase_sync_dof ext inp (nat limiting_dof))
                        [0 ..< length (profiles tr2)] (True, tr2) of
                   (found_time_synchronization, tr3) \<Rightarrow>
                     if found_time_synchronization
                        \<and> list_all (\<lambda>sn. sn = Phase \<or> sn = No_Sync)
                            (inp_per_dof_synchronization tr3)
                     then (Returned Working, tr3)
                     else calculate_time_sync ext throw_error inp limiting_dof tr3)))
      else calculate_time_sync ext throw_error inp limiting_dof tr1)"

text \<open>
  \<^verbatim>\<open>Trajectory::calculate<throw_error, return_error_at_maximal_duration>(inp, delta_time,
  was_interrupted)\<close>; the flag \<^verbatim>\<open>was_interrupted\<close> is set to false and not read.
\<close>

definition calculate ::
  "externals \<Rightarrow> bool \<Rightarrow> bool \<Rightarrow> InputParameter \<Rightarrow> real \<Rightarrow> Trajectory \<Rightarrow> outcome \<times> Trajectory" where
  "calculate ext throw_error return_error_at_maximal_duration inp delta_time tr =
     (case calculate_step1 ext inp [0 ..< length (profiles tr)] tr of
        (False, tr1) \<Rightarrow>
          (if throw_error then Thrown else Returned ErrorExecutionTimeCalculation, tr1)
      | (True, tr1) \<Rightarrow>
          (case synchronize (std_sort ext) (degrees_of_freedom tr1) (blocks tr1)
                  (minimum_duration inp) (profiles tr1)
                  (duration_discretization inp = Discrete) delta_time of
             Sync_Undefined \<Rightarrow> (Undefined, tr1)
           | Sync_False \<Rightarrow>
               (if throw_error then Thrown else Returned ErrorSynchronizationCalculation, tr1)
           | Sync_True t_sync limiting_dof profs \<Rightarrow>
               (let tr2 = tr1\<lparr>duration := t_sync, profiles := profs\<rparr> in
                if return_error_at_maximal_duration \<and> 7600 < duration tr2
                then (Returned ErrorTrajectoryDuration, tr2)
                else if duration tr2 = 0 then (Returned Working, tr2)
                else calculate_modes ext throw_error inp limiting_dof tr2)))"

section \<open>Sampling\<close>

text \<open>
  \<^verbatim>\<open>std::upper_bound\<close> on the running sums: the index of the first entry greater
  than the value.
\<close>

definition upper_bound :: "real list \<Rightarrow> real \<Rightarrow> nat" where
  "upper_bound xs v = length (takeWhile (\<lambda>x. \<not> v < x) xs)"

text \<open>The state of one DoF at a time before the trajectory's duration.\<close>

definition at_time_dof :: "real \<Rightarrow> Profile \<Rightarrow> real \<times> real \<times> real" where
  "at_time_dof time p =
     (if 0 < brake_duration (brake p) \<and> time < brake_duration (brake p)
      then
        (let index = (if time < brake_t (brake p) ! 0 then 0 else 1 :: nat);
             t_diff = (if 0 < index then time - brake_t (brake p) ! (index - 1) else time)
         in integrate t_diff (brake_p (brake p) ! index) (brake_v (brake p) ! index)
              (brake_a (brake p) ! index) (brake_j (brake p) ! index))
      else
        (let t_diff = (if 0 < brake_duration (brake p) then time - brake_duration (brake p)
                       else time)
         in if t_sum p ! 6 \<le> t_diff
            then integrate (t_diff - t_sum p ! 6) (pf p) (vf p) (af p) 0
            else
              (let index = upper_bound (t_sum p) t_diff;
                   t_diff1 = (if 0 < index then t_diff - t_sum p ! (index - 1) else t_diff)
               in integrate t_diff1 (p_arr p ! index) (v_arr p ! index) (a_arr p ! index)
                    (j_arr p ! index))))"

definition write_state ::
  "nat \<Rightarrow> real \<times> real \<times> real \<Rightarrow> real list \<times> real list \<times> real list
   \<Rightarrow> real list \<times> real list \<times> real list" where
  "write_state dof s out =
     (case s of (x, v, a) \<Rightarrow>
        (case out of (new_position, new_velocity, new_acceleration) \<Rightarrow>
           (new_position[dof := x], new_velocity[dof := v], new_acceleration[dof := a])))"

datatype runtime_error = Mismatch_In_Degrees_Of_Freedom

text \<open>
  \<^verbatim>\<open>Trajectory::at_time(time, new_position, new_velocity, new_acceleration, new_section)\<close>:
  the three vectors as written and the section, or the exception of the run-time sized
  trajectory.
\<close>

definition at_time ::
  "Trajectory \<Rightarrow> real \<Rightarrow> real list \<Rightarrow> real list \<Rightarrow> real list
   \<Rightarrow> runtime_error + (real list \<times> real list \<times> real list) \<times> nat" where
  "at_time tr time new_position new_velocity new_acceleration =
     (if DOFs tr = 0
         \<and> (degrees_of_freedom tr \<noteq> length new_position
            \<or> degrees_of_freedom tr \<noteq> length new_velocity
            \<or> degrees_of_freedom tr \<noteq> length new_acceleration)
      then Inl Mismatch_In_Degrees_Of_Freedom
      else if duration tr \<le> time
      then Inr (fold (\<lambda>dof. write_state dof
                        (integrate
                           (time - (brake_duration (brake (profiles tr ! dof))
                                    + t_sum (profiles tr ! dof) ! 6))
                           (pf (profiles tr ! dof)) (vf (profiles tr ! dof))
                           (af (profiles tr ! dof)) 0))
                  [0 ..< length (profiles tr)]
                  (new_position, new_velocity, new_acceleration), 1)
      else Inr (fold (\<lambda>dof. write_state dof (at_time_dof time (profiles tr ! dof)))
                  [0 ..< length (profiles tr)]
                  (new_position, new_velocity, new_acceleration), 0))"

section \<open>Vocabulary of the theorems\<close>

text \<open>
  The total motion time of a profile, as \<^verbatim>\<open>add_interval\<close> and the constructor of
  \<^verbatim>\<open>Block\<close> compute it, and the test of \<^verbatim>\<open>calculate_block\<close> for two profiles
  that are numerically the same, with the factor of \<open>eps\<close> as a parameter.
\<close>

definition total_duration :: "Profile \<Rightarrow> real" where
  "total_duration p = t_sum p ! 6 + brake_duration (brake p)"

definition near_identical :: "real \<Rightarrow> Profile \<Rightarrow> Profile \<Rightarrow> bool" where
  "near_identical k p q \<longleftrightarrow> \<bar>t_sum p ! 6 - t_sum q ! 6\<bar> < k * eps \<and> direction p \<noteq> direction q"

text \<open>
  A duration lies in a forbidden interval of a block when it is strictly between the ends
  of interval \<open>a\<close> or of interval \<open>b\<close>.
\<close>

definition in_forbidden_interval :: "Block \<Rightarrow> real \<Rightarrow> bool" where
  "in_forbidden_interval block t \<longleftrightarrow>
     (\<exists>a. blk_a block = Some a \<and> i_left a < t \<and> t < i_right a)
     \<or> (\<exists>b. blk_b block = Some b \<and> i_left b < t \<and> t < i_right b)"

text \<open>
  The blocks Step 1 builds: the minimal duration is not negative, and no interval starts
  before it.
\<close>

definition wf_block :: "Block \<Rightarrow> bool" where
  "wf_block block \<longleftrightarrow>
     0 \<le> t_min block
     \<and> (case blk_a block of None \<Rightarrow> True | Some a \<Rightarrow> t_min block \<le> i_left a)
     \<and> (case blk_b block of None \<Rightarrow> True | Some b \<Rightarrow> t_min block \<le> i_left b)"

text \<open>
  What \<^verbatim>\<open>std::sort\<close> guarantees for the index array: a permutation of the indices
  below \<open>n\<close> in which no later entry has a smaller candidate.
\<close>

definition sorted_indices :: "tsync list \<Rightarrow> nat \<Rightarrow> nat list \<Rightarrow> bool" where
  "sorted_indices cands n idx \<longleftrightarrow>
     distinct idx \<and> set idx = {0 ..< n}
     \<and> sorted_wrt (\<lambda>i j. \<not> tsync_less (cands ! j) (cands ! i)) idx"

text \<open>
  The vocabulary of the time synchronization: the duration a DoF's profile has to take,
  \<^verbatim>\<open>t_profile = duration - p.brake.duration\<close>; and when a DoF's mode takes part: it is
  not None, and not TimeIfNecessary with a target velocity and acceleration under
  \<open>eps\<close>.
\<close>

definition t_profile_of :: "Trajectory \<Rightarrow> nat \<Rightarrow> real" where
  "t_profile_of tr dof = duration tr - brake_duration (brake (profiles tr ! dof))"

definition takes_part :: "InputParameter \<Rightarrow> Trajectory \<Rightarrow> nat \<Rightarrow> bool" where
  "takes_part inp tr dof \<longleftrightarrow>
     inp_per_dof_synchronization tr ! dof \<noteq> No_Sync
     \<and> \<not> (inp_per_dof_synchronization tr ! dof = TimeIfNecessary
            \<and> \<bar>target_velocity inp ! dof\<bar> < eps \<and> \<bar>target_acceleration inp ! dof\<bar> < eps)"

text \<open>
  The test "the final time corresponds to an extremal profile calculated in step 1", and
  the profile the code takes then: the first of \<open>p_min\<close>, \<open>a.profile\<close> and
  \<open>b.profile\<close> whose duration is within \<open>eps\<close> of \<open>t_profile\<close>.
\<close>

definition extremal_match :: "Trajectory \<Rightarrow> nat \<Rightarrow> bool" where
  "extremal_match tr dof \<longleftrightarrow>
     \<bar>t_profile_of tr dof - t_min (blocks tr ! dof)\<bar> < eps
     \<or> (\<exists>a. blk_a (blocks tr ! dof) = Some a \<and> \<bar>t_profile_of tr dof - i_right a\<bar> < eps)
     \<or> (\<exists>b. blk_b (blocks tr ! dof) = Some b \<and> \<bar>t_profile_of tr dof - i_right b\<bar> < eps)"

definition first_match :: "Trajectory \<Rightarrow> nat \<Rightarrow> Profile \<Rightarrow> bool" where
  "first_match tr dof p \<longleftrightarrow>
     (if \<bar>t_profile_of tr dof - t_min (blocks tr ! dof)\<bar> < eps
      then p = p_min (blocks tr ! dof)
      else if \<exists>a. blk_a (blocks tr ! dof) = Some a \<and> \<bar>t_profile_of tr dof - i_right a\<bar> < eps
      then \<exists>a. blk_a (blocks tr ! dof) = Some a \<and> p = i_profile a
      else \<exists>b. blk_b (blocks tr ! dof) = Some b \<and> p = i_profile b)"

text \<open>
  Two relations between the trajectory before and after a part of \<^verbatim>\<open>calculate\<close>: the
  part leaves the blocks, the independent minimal durations and the duration; and the
  part makes no call for a DoF.
\<close>

definition keeps_plan :: "Trajectory \<Rightarrow> Trajectory \<Rightarrow> bool" where
  "keeps_plan tr tr' \<longleftrightarrow>
     blocks tr' = blocks tr
     \<and> independent_min_durations tr' = independent_min_durations tr
     \<and> duration tr' = duration tr"

definition no_call_for :: "nat \<Rightarrow> Trajectory \<Rightarrow> Trajectory \<Rightarrow> bool" where
  "no_call_for dof tr tr' \<longleftrightarrow>
     (\<exists>new. trace tr' = trace tr @ new
        \<and> Call_Brake dof \<notin> set new \<and> Call_Step1 dof \<notin> set new
        \<and> Call_Step2 dof \<notin> set new \<and> Call_Check dof \<notin> set new)"

section \<open>Example data\<close>

text \<open>
  Concrete profiles, blocks and trajectories, at which theorems are instantiated: a
  profile of a given duration \<open>t_sum[6]\<close>, direction and brake duration, the block of
  a profile of duration 0, a block with one interval, five profiles whose intervals
  nest, and a trajectory of given profiles, blocks and duration.
\<close>

definition ex_brake :: "real \<Rightarrow> BrakeProfile" where
  "ex_brake d = \<lparr>brake_duration = d, brake_t = [d, 0], brake_j = [0, 0], brake_a = [0, 0],
                 brake_v = [0, 0], brake_p = [0, 0]\<rparr>"

definition ex_profile :: "real \<Rightarrow> Direction \<Rightarrow> real \<Rightarrow> Profile" where
  "ex_profile T dir d =
     \<lparr>t_arr = [0, 0, 0, 0, 0, 0, T], t_sum = [0, 0, 0, 0, 0, 0, T], j_arr = [0, 0, 0, 0, 0, 0, 0],
      a_arr = [0, 0, 0, 0, 0, 0, 0, 0], v_arr = [0, 0, 0, 0, 0, 0, 0, 0],
      p_arr = [0, 0, 0, 0, 0, 0, 0, 0], pf = 0, vf = 0, af = 0, limits = NONE,
      direction = dir, jerk_signs = UDDU, brake = ex_brake d\<rparr>"

definition ex_block0 :: Block where
  "ex_block0 = Block_of (ex_profile 0 UP 0)"

definition ex_block_a :: "Profile \<Rightarrow> real \<Rightarrow> Profile \<Rightarrow> Block" where
  "ex_block_a p l q =
     (Block_of p)\<lparr>blk_a := Some \<lparr>i_left = l, i_right = total_duration q, i_profile = q\<rparr>\<rparr>"

definition ex_nested :: "Profile list" where
  "ex_nested = [ex_profile 1 UP 0, ex_profile 2 UP 0, ex_profile 3 DOWN 0, ex_profile 4 DOWN 0,
                ex_profile 5 UP 0]"

definition ex_trajectory :: "nat \<Rightarrow> Profile list \<Rightarrow> Block list \<Rightarrow> real \<Rightarrow> Trajectory" where
  "ex_trajectory n ps bs d =
     \<lparr>DOFs = n, degrees_of_freedom = n, profiles = ps, duration = d,
      independent_min_durations = replicate n 0, pd = replicate n 0, blocks = bs,
      p0s = replicate n 0, v0s = replicate n 0, a0s = replicate n 0,
      inp_min_velocity = replicate n 0, inp_min_acceleration = replicate n 0,
      inp_per_dof_control_interface = replicate n Position,
      inp_per_dof_synchronization = replicate n Time,
      new_max_jerk = replicate n 0, trace = []\<rparr>"

text \<open>
  Stand-ins for the code outside trajectory.hpp, to run \<^verbatim>\<open>calculate\<close> on concrete
  inputs: the brake lowers a velocity over the bound with the full jerk, Step 1 finds one
  profile that takes as long as the distance (or the change of velocity) is, Step 2 finds
  a profile of the duration asked for, and every check passes.
\<close>

definition ex_position_brake :: "real list \<Rightarrow> real list \<Rightarrow> real list \<Rightarrow> real list \<times> real list" where
  "ex_position_brake args t j =
     (if args ! 2 < args ! 0 then ([(args ! 0 - args ! 2) / args ! 6, 0], [- (args ! 6), 0])
      else ([0, 0], [0, 0]))"

definition ex_position_step1 :: "real list \<Rightarrow> Profile \<Rightarrow> Block \<Rightarrow> bool \<times> Profile \<times> Block" where
  "ex_position_step1 args p block =
     (True, p, Block_of (p\<lparr>t_sum := [0, 0, 0, 0, 0, 0, \<bar>args ! 3 - args ! 0\<bar>],
                            pf := args ! 3, vf := args ! 4, af := args ! 5\<rparr>))"

definition ex_velocity_step1 :: "real list \<Rightarrow> Profile \<Rightarrow> Block \<Rightarrow> bool \<times> Profile \<times> Block" where
  "ex_velocity_step1 args p block =
     (True, p, Block_of (p\<lparr>t_sum := [0, 0, 0, 0, 0, 0, \<bar>args ! 3 - args ! 1\<bar>],
                            vf := args ! 3, af := args ! 4\<rparr>))"

definition ex_position_step2 :: "real list \<Rightarrow> Profile \<Rightarrow> bool \<times> Profile" where
  "ex_position_step2 args p =
     (True, p\<lparr>t_sum := [0, 0, 0, 0, 0, 0, args ! 0],
              pf := args ! 4, vf := args ! 5, af := args ! 6\<rparr>)"

definition ex_velocity_step2 :: "real list \<Rightarrow> Profile \<Rightarrow> bool \<times> Profile" where
  "ex_velocity_step2 args p =
     (True, p\<lparr>t_sum := [0, 0, 0, 0, 0, 0, args ! 0], vf := args ! 4, af := args ! 5\<rparr>)"

definition ex_externals :: externals where
  "ex_externals =
     \<lparr>std_sort = insertion_sort,
      get_position_brake_trajectory = ex_position_brake,
      get_velocity_brake_trajectory = (\<lambda>args t j. ([0, 0], [0, 0])),
      position_step1 = ex_position_step1,
      velocity_step1 = ex_velocity_step1,
      position_step2 = ex_position_step2,
      velocity_step2 = ex_velocity_step2,
      set_boundary = (\<lambda>p args. p),
      check_with_timing = (\<lambda>js p args. (True, p))\<rparr>"

text \<open>
  An input in position control with time synchronization and all bounds 1: the enabled
  flags, the current positions and velocities, and the target positions; accelerations
  and target velocities are 0.
\<close>

definition ex_input :: "bool list \<Rightarrow> real list \<Rightarrow> real list \<Rightarrow> real list \<Rightarrow> InputParameter" where
  "ex_input en cp cv tp =
     \<lparr>control_interface = Position, synchronization = Time,
      duration_discretization = Continuous,
      current_position = cp, current_velocity = cv,
      current_acceleration = map (\<lambda>x. 0) cp,
      target_position = tp, target_velocity = map (\<lambda>x. 0) cp,
      target_acceleration = map (\<lambda>x. 0) cp,
      max_velocity = map (\<lambda>x. 1) cp, max_acceleration = map (\<lambda>x. 1) cp,
      max_jerk = map (\<lambda>x. 1) cp,
      min_velocity = None, min_acceleration = None, enabled = en,
      per_dof_control_interface = None, per_dof_synchronization = None,
      minimum_duration = None\<rparr>"

text \<open>
  Two states at the start of the time synchronization, both with DoF 1 limiting. In the
  first, the block of DoF 0 is the one \<^verbatim>\<open>calculate_block\<close> builds from three profiles of
  duration 1, and the duration is 1. In the second, the block of DoF 0 has
  \<open>t_min = 1\<close> and the interval from 2 to 5, and the duration is 5.
\<close>

definition ex_tie_block :: Block where
  "ex_tie_block =
     snd (calculate_block True ex_block0
            [ex_profile 1 UP 0, ex_profile 1 DOWN 0, ex_profile 1 UP 0] 3)"

definition ex_tie_state :: Trajectory where
  "ex_tie_state =
     ex_trajectory 2 [ex_profile 0 UP 0, ex_profile 1 UP 0]
       [ex_tie_block, Block_of (ex_profile 1 UP 0)] 1"

definition ex_interval_state :: Trajectory where
  "ex_interval_state =
     ex_trajectory 2 [ex_profile 0 UP 0, ex_profile 5 UP 0]
       [ex_block_a (ex_profile 1 UP 0) 2 (ex_profile 5 DOWN 0), Block_of (ex_profile 5 UP 0)] 5"

text \<open>
  Doubles for the examples with a quantum: the doubles nearest to 0.1, 0.4 and 1.1, the
  double 0.30000000000000004 (the product of 3 and the double 0.1), and the double
  3.5000000000000004 that follows 3.5.
\<close>

definition ex_0_1 :: real where
  "ex_0_1 = 3602879701896397 / 2 ^ 55"

definition ex_0_4 :: real where
  "ex_0_4 = 3602879701896397 / 2 ^ 53"

definition ex_1_1 :: real where
  "ex_1_1 = 2476979795053773 / 2 ^ 51"

definition ex_0_3 :: real where
  "ex_0_3 = 1351079888211149 / 2 ^ 52"

definition ex_3_5 :: real where
  "ex_3_5 = 7881299347898369 / 2 ^ 51"

text \<open>
  A trajectory object after a first call of \<^verbatim>\<open>calculate\<close> with both DoFs enabled:
  DoF 0 moves from 0 to 1, DoF 1 from 0 to 10.
\<close>

definition ex_first_call :: Trajectory where
  "ex_first_call =
     snd (calculate ex_externals False False (ex_input [True, True] [0, 0] [0, 0] [1, 10]) 0
            (ex_trajectory 2 [ex_profile 0 UP 0, ex_profile 0 UP 0] [ex_block0, ex_block0] 0))"

section \<open>Properties of blocks\<close>

lemma eps_pos: "0 < eps" by (simp add: eps_def)

lemma ex_profile_sel [simp]:
  "t_sum (ex_profile T dir d) ! 6 = T"
  "direction (ex_profile T dir d) = dir"
  "brake_duration (brake (ex_profile T dir d)) = d"
  by (simp_all add: ex_profile_def ex_brake_def)

lemma upt_1_3: "[1 ..< 3] = [1, 2::nat]" by code_simp

lemma upt_1_5: "[1 ..< 5] = [1, 2, 3, 4::nat]" by code_simp

lemma min_element_idx_3:
  "min_element_idx vp 3 =
     (let s = (if t_sum (vp ! 1) ! 6 < t_sum (vp ! 0) ! 6 then 1 else 0)
      in if t_sum (vp ! 2) ! 6 < t_sum (vp ! s) ! 6 then 2 else s)"
  unfolding min_element_idx_def upt_1_3 by (simp add: Let_def)

lemma min_element_idx_5:
  "min_element_idx vp 5 =
     (let s1 = (if t_sum (vp ! 1) ! 6 < t_sum (vp ! 0) ! 6 then 1 else 0);
          s2 = (if t_sum (vp ! 2) ! 6 < t_sum (vp ! s1) ! 6 then 2 else s1);
          s3 = (if t_sum (vp ! 3) ! 6 < t_sum (vp ! s2) ! 6 then 3 else s2)
      in if t_sum (vp ! 4) ! 6 < t_sum (vp ! s3) ! 6 then 4 else s3)"
  unfolding min_element_idx_def upt_1_5 by (simp add: Let_def)

lemma ex_nested_block:
  "calculate_block True ex_block0 ex_nested 5 =
     (True, \<lparr>p_min = ex_profile 1 UP 0, t_min = 1,
             blk_a = Some \<lparr>i_left = 2, i_right = 5, i_profile = ex_profile 5 UP 0\<rparr>,
             blk_b = Some \<lparr>i_left = 3, i_right = 4, i_profile = ex_profile 4 DOWN 0\<rparr>\<rparr>)"
  by (simp add: calculate_block_def assemble_block_def min_element_idx_5 ex_nested_def
      Block_of_def add_interval_def Let_def)

text \<open>
  Claim C2 as stated fails where the two intervals of a block overlap. For five profiles
  whose neighbours of the fastest differ in direction, \<^verbatim>\<open>calculate_block\<close> pairs
  the profiles (1,4) and (2,3): interval \<open>b\<close> lies inside interval \<open>a\<close>, and the
  left end of \<open>b\<close>, which is not under \<open>t_min\<close>, is blocked by \<open>a\<close>.
\<close>

theorem is_blocked_endpoint_counterexample:
  "blk_b (snd (calculate_block True ex_block0 ex_nested 5))
     = Some \<lparr>i_left = 3, i_right = 4, i_profile = ex_profile 4 DOWN 0\<rparr>
   \<and> t_min (snd (calculate_block True ex_block0 ex_nested 5)) \<le> 3
   \<and> is_blocked (snd (calculate_block True ex_block0 ex_nested 5)) 3"
  by (simp add: ex_nested_block is_blocked_def)

text \<open>
  Claim C2, amended: \<open>is_blocked t\<close> holds exactly when \<open>t < t_min\<close>, or interval
  \<open>a\<close> exists and \<open>a.left < t < a.right\<close>, or interval \<open>b\<close> exists and
  \<open>b.left < t < b.right\<close>; an end of an interval that is not under \<open>t_min\<close> and not
  strictly inside the other interval is not blocked.
\<close>

theorem is_blocked_spec:
  "(is_blocked block t \<longleftrightarrow>
      t < t_min block
      \<or> (\<exists>a. blk_a block = Some a \<and> i_left a < t \<and> t < i_right a)
      \<or> (\<exists>b. blk_b block = Some b \<and> i_left b < t \<and> t < i_right b))
   \<and> (\<forall>a. blk_a block = Some a \<and> (t = i_left a \<or> t = i_right a) \<and> t_min block \<le> t
          \<and> (\<forall>b. blk_b block = Some b \<longrightarrow> \<not> (i_left b < t \<and> t < i_right b))
        \<longrightarrow> \<not> is_blocked block t)
   \<and> (\<forall>b. blk_b block = Some b \<and> (t = i_left b \<or> t = i_right b) \<and> t_min block \<le> t
          \<and> (\<forall>a. blk_a block = Some a \<longrightarrow> \<not> (i_left a < t \<and> t < i_right a))
        \<longrightarrow> \<not> is_blocked block t)"
  by (auto simp: is_blocked_def split: option.splits)

text \<open>
  The amended claim C2 at the block of the five profiles: the ends 5 and 2 of interval
  \<open>a\<close> are free, 3.5 is blocked.
\<close>

theorem is_blocked_spec_witness:
  "\<not> is_blocked (snd (calculate_block True ex_block0 ex_nested 5)) 5
   \<and> \<not> is_blocked (snd (calculate_block True ex_block0 ex_nested 5)) 2
   \<and> is_blocked (snd (calculate_block True ex_block0 ex_nested 5)) (7 / 2)"
  using is_blocked_spec[of "snd (calculate_block True ex_block0 ex_nested 5)" 5]
        is_blocked_spec[of "snd (calculate_block True ex_block0 ex_nested 5)" 2]
        is_blocked_spec[of "snd (calculate_block True ex_block0 ex_nested 5)" "7 / 2"]
  by (simp add: ex_nested_block)

text \<open>
  Claim C7: the interval that \<^verbatim>\<open>add_interval\<close> builds from two profiles has
  \<open>left \<le> right\<close>, its right end is the larger of the two total durations
  (\<open>t_sum[6]\<close> plus brake duration), its left end the smaller, and the stored profile is
  one of the two and has the right end as its total duration: it is the slower one.
\<close>

theorem add_interval_oriented:
  "i_left (add_interval l r) \<le> i_right (add_interval l r)
   \<and> i_right (add_interval l r) = max (total_duration l) (total_duration r)
   \<and> i_left (add_interval l r) = min (total_duration l) (total_duration r)
   \<and> (i_profile (add_interval l r) = l \<or> i_profile (add_interval l r) = r)
   \<and> total_duration (i_profile (add_interval l r)) = i_right (add_interval l r)"
  by (simp add: add_interval_def total_duration_def Let_def)




lemma assemble_block_3_cong:
  assumes "xs ! 0 = ys ! 0" "xs ! 1 = ys ! 1" "xs ! 2 = ys ! 2"
  shows "assemble_block xs 3 = assemble_block ys 3"
  using assms by (simp add: assemble_block_def min_element_idx_3 Let_def numeral_2_eq_2)

lemma remove_profile_4_1:
  "4 \<le> length vp \<Longrightarrow> remove_profile vp 4 1 = (vp[1 := vp ! 2, 2 := vp ! 3], 3)"
proof -
  have u: "[1 ..< 4 - 1] = [1, 2::nat]" by code_simp
  show ?thesis unfolding remove_profile_def u by (simp add: numeral_2_eq_2 numeral_3_eq_3)
qed

lemma remove_profile_4_3: "remove_profile vp 4 3 = (vp, 3)"
  unfolding remove_profile_def by simp

lemma calculate_block_3: "calculate_block r block vp 3 = assemble_block vp 3"
  by (simp add: calculate_block_def)

text \<open>
  Claim C6: \<^verbatim>\<open>calculate_block\<close> with four valid profiles, held in an array of at
  least four entries. If the profiles 0 and 1 agree within \<open>32 eps\<close> and differ in
  direction, profile 1 is removed; otherwise, if the profiles 2 and 3, or 0 and 3, agree
  within \<open>256 eps\<close> and differ in direction, profile 3 is removed. The call then
  returns what it returns for the three profiles left, and it returns true. If no pair
  collapses, it returns false and leaves the block as it was, as it does for every other
  even count but two.
\<close>

theorem calculate_block_even_count:
  assumes "4 \<le> length vp"
  shows "(near_identical 32 (vp ! 0) (vp ! 1) \<longrightarrow>
            calculate_block r block vp 4 = calculate_block r block [vp ! 0, vp ! 2, vp ! 3] 3
            \<and> fst (calculate_block r block vp 4))
       \<and> (\<not> near_identical 32 (vp ! 0) (vp ! 1)
            \<and> (near_identical 256 (vp ! 2) (vp ! 3) \<or> near_identical 256 (vp ! 0) (vp ! 3)) \<longrightarrow>
            calculate_block r block vp 4 = calculate_block r block [vp ! 0, vp ! 1, vp ! 2] 3
            \<and> fst (calculate_block r block vp 4))
       \<and> (\<not> near_identical 32 (vp ! 0) (vp ! 1) \<and> \<not> near_identical 256 (vp ! 2) (vp ! 3)
            \<and> \<not> near_identical 256 (vp ! 0) (vp ! 3) \<longrightarrow>
            calculate_block r block vp 4 = (False, block))
       \<and> (\<forall>n. even n \<and> n \<noteq> 2 \<and> n \<noteq> 4 \<longrightarrow> calculate_block r block vp n = (False, block))"
proof (intro conjI impI allI)
  assume c: "near_identical 32 (vp ! 0) (vp ! 1)"
  have "assemble_block (vp[1 := vp ! 2, 2 := vp ! 3]) 3 = assemble_block [vp ! 0, vp ! 2, vp ! 3] 3"
    using assms by (intro assemble_block_3_cong) simp_all
  with c assms show eq: "calculate_block r block vp 4 = calculate_block r block [vp ! 0, vp ! 2, vp ! 3] 3"
    unfolding calculate_block_3
    by (simp add: calculate_block_def near_identical_def remove_profile_4_1[simplified])
  show "fst (calculate_block r block vp 4)"
    unfolding eq calculate_block_3 by (simp add: assemble_block_def Let_def)
next
  assume c: "\<not> near_identical 32 (vp ! 0) (vp ! 1)
            \<and> (near_identical 256 (vp ! 2) (vp ! 3) \<or> near_identical 256 (vp ! 0) (vp ! 3))"
  have "assemble_block vp 3 = assemble_block [vp ! 0, vp ! 1, vp ! 2] 3"
    by (intro assemble_block_3_cong) simp_all
  with c show eq: "calculate_block r block vp 4 = calculate_block r block [vp ! 0, vp ! 1, vp ! 2] 3"
    by (simp add: calculate_block_3)
       (auto simp: calculate_block_def near_identical_def remove_profile_4_3)
  show "fst (calculate_block r block vp 4)"
    unfolding eq calculate_block_3 by (simp add: assemble_block_def Let_def)
next
  assume "\<not> near_identical 32 (vp ! 0) (vp ! 1) \<and> \<not> near_identical 256 (vp ! 2) (vp ! 3)
            \<and> \<not> near_identical 256 (vp ! 0) (vp ! 3)"
  then show "calculate_block r block vp 4 = (False, block)"
    by (auto simp: calculate_block_def near_identical_def)
next
  fix n :: nat
  assume "even n \<and> n \<noteq> 2 \<and> n \<noteq> 4"
  then show "calculate_block r block vp n = (False, block)"
    by (auto simp: calculate_block_def)
qed

text \<open>
  Claim C6 at four profiles whose first two collapse, at four profiles of which none
  collapse, and at the count 0.
\<close>

theorem calculate_block_even_count_witness:
  "calculate_block True ex_block0
       [ex_profile 1 UP 0, ex_profile 1 DOWN 0, ex_profile 2 UP 0, ex_profile 3 UP 0] 4
     = (True, \<lparr>p_min = ex_profile 1 UP 0, t_min = 1,
               blk_a = Some \<lparr>i_left = 2, i_right = 3, i_profile = ex_profile 3 UP 0\<rparr>,
               blk_b = None\<rparr>)
   \<and> calculate_block True ex_block0
       [ex_profile 1 UP 0, ex_profile 2 UP 0, ex_profile 3 UP 0, ex_profile 4 UP 0] 4
     = (False, ex_block0)
   \<and> calculate_block True ex_block0 [] 0 = (False, ex_block0)"
  using calculate_block_even_count[of "[ex_profile 1 UP 0, ex_profile 1 DOWN 0, ex_profile 2 UP 0, ex_profile 3 UP 0]" True ex_block0]
        calculate_block_even_count[of "[ex_profile 1 UP 0, ex_profile 2 UP 0, ex_profile 3 UP 0, ex_profile 4 UP 0]" True ex_block0]
        eps_pos
  by (simp add: near_identical_def calculate_block_3 assemble_block_def min_element_idx_3
      Block_of_def add_interval_def Let_def)
     (simp add: calculate_block_def)

subsection \<open>The blocks of \<^verbatim>\<open>calculate_block\<close> are well formed\<close>

text \<open>
  For valid profiles of one DoF, with durations that are not negative and one brake
  duration, the block \<^verbatim>\<open>calculate_block\<close> builds has no interval that starts before
  \<open>t_min\<close>: the synchronizer is given such blocks.
\<close>

lemma min_element_idx_Suc:
  "0 < n \<Longrightarrow>
   min_element_idx vp (Suc n) =
     (if t_sum (vp ! n) ! 6 < t_sum (vp ! min_element_idx vp n) ! 6 then n
      else min_element_idx vp n)"
  by (simp add: min_element_idx_def)

lemma min_element_idx_less: "0 < n \<Longrightarrow> min_element_idx vp n < n"
proof (induction n)
  case 0
  then show ?case by simp
next
  case (Suc n)
  show ?case
  proof (cases "n = 0")
    case True
    then show ?thesis by (simp add: min_element_idx_def)
  next
    case False
    with Suc show ?thesis by (auto simp: min_element_idx_Suc)
  qed
qed

lemma min_element_idx_le:
  "i < n \<Longrightarrow> t_sum (vp ! min_element_idx vp n) ! 6 \<le> t_sum (vp ! i) ! 6"
proof (induction n)
  case 0
  then show ?case by simp
next
  case (Suc n)
  show ?case
  proof (cases "n = 0")
    case True
    with Suc.prems show ?thesis by (simp add: min_element_idx_def)
  next
    case False
    then have n: "0 < n" by simp
    show ?thesis
    proof (cases "i = n")
      case True
      then show ?thesis by (simp add: min_element_idx_Suc[OF n])
    next
      case False
      with Suc.prems have "i < n" by simp
      from Suc.IH[OF this] show ?thesis by (simp add: min_element_idx_Suc[OF n])
    qed
  qed
qed

lemma add_interval_left:
  assumes "T \<le> total_duration x" "T \<le> total_duration y"
  shows "T \<le> i_left (add_interval x y)"
  using assms by (simp add: add_interval_def total_duration_def Let_def)

lemma assemble_block_wf:
  assumes ok: "assemble_block vp n = (True, b)"
    and nonneg: "\<forall>i<n. 0 \<le> total_duration (vp ! i)"
    and brake: "\<forall>i<n. brake_duration (brake (vp ! i)) = d"
  shows "wf_block b"
proof -
  from ok have n: "n = 3 \<or> n = 5"
    by (auto simp: assemble_block_def Let_def split: if_splits)
  then have pos: "0 < n" by auto
  let ?m = "min_element_idx vp n"
  have m: "?m < n" using pos by (rule min_element_idx_less)
  have least: "total_duration (vp ! ?m) \<le> total_duration (vp ! i)" if "i < n" for i
    using min_element_idx_le[OF that, of vp] brake that m by (simp add: total_duration_def)
  have tmin: "t_min (Block_of (vp ! ?m)) = total_duration (vp ! ?m)"
    by (simp add: Block_of_def total_duration_def)
  have nn: "0 \<le> total_duration (vp ! ?m)" using nonneg m by simp
  have left: "total_duration (vp ! ?m) \<le> i_left (add_interval (vp ! i) (vp ! j))"
    if "i < n" "j < n" for i j
    using least[OF that(1)] least[OF that(2)] by (rule add_interval_left)
  from n show ?thesis
  proof
    assume n3: "n = 3"
    have i: "(?m + 1) mod 3 < n" "(?m + 2) mod 3 < n" using n3 by simp_all
    from ok n3 have "b = (Block_of (vp ! ?m))
        \<lparr>blk_a := Some (add_interval (vp ! ((?m + 1) mod 3)) (vp ! ((?m + 2) mod 3)))\<rparr>"
      by (simp add: assemble_block_def Let_def)
    with left[OF i] nn tmin show ?thesis
      by (simp add: wf_block_def Block_of_def)
  next
    assume n5: "n = 5"
    have i: "(?m + 1) mod 5 < n" "(?m + 2) mod 5 < n" "(?m + 3) mod 5 < n" "(?m + 4) mod 5 < n"
      using n5 by simp_all
    from ok n5 have "b = (Block_of (vp ! ?m))
        \<lparr>blk_a := Some (add_interval (vp ! ((?m + 1) mod 5)) (vp ! ((?m + 2) mod 5))),
         blk_b := Some (add_interval (vp ! ((?m + 3) mod 5)) (vp ! ((?m + 4) mod 5)))\<rparr>
      \<or> b = (Block_of (vp ! ?m))
        \<lparr>blk_a := Some (add_interval (vp ! ((?m + 1) mod 5)) (vp ! ((?m + 4) mod 5))),
         blk_b := Some (add_interval (vp ! ((?m + 2) mod 5)) (vp ! ((?m + 3) mod 5)))\<rparr>"
      by (simp add: assemble_block_def Let_def split: if_splits)
    with left[OF i(1) i(2)] left[OF i(3) i(4)] left[OF i(1) i(4)] left[OF i(2) i(3)] nn tmin
    show ?thesis
      by (auto simp: wf_block_def Block_of_def)
  qed
qed

lemma calculate_block_wf:
  assumes ok: "calculate_block r block vp n = (True, b)"
    and len: "n \<le> length vp"
    and nonneg: "\<forall>i<n. 0 \<le> total_duration (vp ! i)"
    and brake: "\<forall>i<n. brake_duration (brake (vp ! i)) = d"
  shows "wf_block b"
proof -
  have single: "wf_block (Block_of (vp ! 0))" if "0 < n"
    using nonneg that by (simp add: wf_block_def Block_of_def total_duration_def)
  consider "n = 1" | "n = 2" | "n = 4" | "n \<noteq> 1" "n \<noteq> 2" "n \<noteq> 4" by blast
  then show ?thesis
  proof cases
    case 1
    with ok single show ?thesis by (simp add: calculate_block_def)
  next
    case 2
    let ?m = "if t_sum (vp ! 0) ! 6 < t_sum (vp ! 1) ! 6 then 0 else 1 :: nat"
    have tot: "total_duration (vp ! ?m) \<le> total_duration (vp ! 0)"
              "total_duration (vp ! ?m) \<le> total_duration (vp ! 1)"
              "0 \<le> total_duration (vp ! ?m)"
      using brake nonneg 2 by (auto simp: total_duration_def)
    have two: "wf_block ((Block_of (vp ! ?m))
                 \<lparr>blk_a := Some (add_interval (vp ! ?m) (vp ! ((?m + 1) mod 2)))\<rparr>)"
    proof -
      have "total_duration (vp ! ?m) \<le> i_left (add_interval (vp ! ?m) (vp ! ((?m + 1) mod 2)))"
        using tot by (intro add_interval_left) auto
      with tot(3) show ?thesis
        by (simp add: wf_block_def Block_of_def total_duration_def)
    qed
    from ok 2 single two show ?thesis
      by (auto simp: calculate_block_def Let_def assemble_block_def split: if_splits)
  next
    case 3
    have rp1: "remove_profile vp 4 (Suc 0) = (vp[Suc 0 := vp ! 2, 2 := vp ! 3], 3)"
      using remove_profile_4_1[of vp] len 3 by simp
    from ok 3 obtain vp' where asm: "assemble_block vp' 3 = (True, b)"
      and vp': "vp' = vp[1 := vp ! 2, 2 := vp ! 3] \<or> vp' = vp"
      by (auto simp: calculate_block_def rp1 remove_profile_4_3 split: if_splits)
    have entries: "\<forall>i<3. \<exists>j<4. vp' ! i = vp ! j"
    proof (intro allI impI)
      fix i :: nat assume "i < 3"
      then consider "i = 0" | "i = 1" | "i = 2" by linarith
      then show "\<exists>j<4. vp' ! i = vp ! j"
        using vp' len 3
        by cases (auto simp: nth_list_update intro: exI[of _ 0] exI[of _ 1] exI[of _ 2] exI[of _ 3])
    qed
    have "\<forall>i<3. 0 \<le> total_duration (vp' ! i)"
      using entries nonneg 3 by metis
    moreover have "\<forall>i<3. brake_duration (brake (vp' ! i)) = d"
      using entries brake 3 by metis
    ultimately show ?thesis using asm by (intro assemble_block_wf)
  next
    case 4
    with ok have "assemble_block vp n = (True, b)"
      by (simp add: calculate_block_def split: if_splits)
    then show ?thesis using nonneg brake by (rule assemble_block_wf)
  qed
qed

section \<open>Properties of sampling\<close>

lemma map_upt_update:
  "g n = x \<Longrightarrow>
   (map (\<lambda>i. if i < n then g i else xs ! i) [0 ..< length xs])[n := x]
     = map (\<lambda>i. if i < Suc n then g i else xs ! i) [0 ..< length xs]"
  by (rule nth_equalityI) (auto simp: nth_list_update less_Suc_eq)

lemma fold_write_state:
  "fold (\<lambda>dof. write_state dof (f dof)) [0 ..< n] (P, V, A) =
     (map (\<lambda>i. if i < n then fst (f i) else P ! i) [0 ..< length P],
      map (\<lambda>i. if i < n then fst (snd (f i)) else V ! i) [0 ..< length V],
      map (\<lambda>i. if i < n then snd (snd (f i)) else A ! i) [0 ..< length A])"
proof (induction n)
  case 0
  show ?case by (simp add: map_nth)
next
  case (Suc n)
  obtain x v a where fn: "f n = (x, v, a)" by (cases "f n")
  have 1: "(map (\<lambda>i. if i < n then fst (f i) else P ! i) [0 ..< length P])[n := x]
      = map (\<lambda>i. if i < Suc n then fst (f i) else P ! i) [0 ..< length P]"
    by (rule map_upt_update) (simp add: fn)
  have 2: "(map (\<lambda>i. if i < n then fst (snd (f i)) else V ! i) [0 ..< length V])[n := v]
      = map (\<lambda>i. if i < Suc n then fst (snd (f i)) else V ! i) [0 ..< length V]"
    by (rule map_upt_update) (simp add: fn)
  have 3: "(map (\<lambda>i. if i < n then snd (snd (f i)) else A ! i) [0 ..< length A])[n := a]
      = map (\<lambda>i. if i < Suc n then snd (snd (f i)) else A ! i) [0 ..< length A]"
    by (rule map_upt_update) (simp add: fn)
  have "fold (\<lambda>dof. write_state dof (f dof)) [0 ..< Suc n] (P, V, A)
      = write_state n (f n) (fold (\<lambda>dof. write_state dof (f dof)) [0 ..< n] (P, V, A))"
    by simp
  also have "\<dots> = (map (\<lambda>i. if i < Suc n then fst (f i) else P ! i) [0 ..< length P],
      map (\<lambda>i. if i < Suc n then fst (snd (f i)) else V ! i) [0 ..< length V],
      map (\<lambda>i. if i < Suc n then snd (snd (f i)) else A ! i) [0 ..< length A])"
    unfolding Suc fn write_state_def prod.case 1 2 3 ..
  finally show ?case .
qed

lemma at_time_after:
  assumes "duration tr \<le> time"
    and "DOFs tr = 0 \<longrightarrow> degrees_of_freedom tr = length new_position
           \<and> degrees_of_freedom tr = length new_velocity
           \<and> degrees_of_freedom tr = length new_acceleration"
  shows "at_time tr time new_position new_velocity new_acceleration =
           Inr (fold (\<lambda>dof. write_state dof
                        (integrate
                           (time - (brake_duration (brake (profiles tr ! dof))
                                    + t_sum (profiles tr ! dof) ! 6))
                           (pf (profiles tr ! dof)) (vf (profiles tr ! dof))
                           (af (profiles tr ! dof)) 0))
                  [0 ..< length (profiles tr)]
                  (new_position, new_velocity, new_acceleration), 1)"
  using assms unfolding at_time_def by auto

text \<open>
  Claim C8: for a trajectory and output vectors of one entry per DoF, and a time not
  before the trajectory's duration, \<^verbatim>\<open>at_time\<close> reports section 1 and writes, for
  each DoF, the state that \<^verbatim>\<open>integrate\<close> gives with jerk 0 from the profile's
  \<open>(pf, vf, af)\<close> over the time minus the profile's total duration
  \<open>brake.duration + t_sum[6]\<close>.
\<close>

theorem at_time_after_duration:
  assumes "duration tr \<le> time"
    and "length new_position = length (profiles tr)"
    and "length new_velocity = length (profiles tr)"
    and "length new_acceleration = length (profiles tr)"
    and "degrees_of_freedom tr = length (profiles tr)"
  shows "\<exists>P V A. at_time tr time new_position new_velocity new_acceleration = Inr ((P, V, A), 1)
           \<and> length P = length (profiles tr) \<and> length V = length (profiles tr)
           \<and> length A = length (profiles tr)
           \<and> (\<forall>dof < length (profiles tr).
                 (P ! dof, V ! dof, A ! dof)
                   = integrate (time - (brake_duration (brake (profiles tr ! dof))
                                        + t_sum (profiles tr ! dof) ! 6))
                       (pf (profiles tr ! dof)) (vf (profiles tr ! dof))
                       (af (profiles tr ! dof)) 0)"
proof -
  have "at_time tr time new_position new_velocity new_acceleration =
           Inr (fold (\<lambda>dof. write_state dof
                        (integrate
                           (time - (brake_duration (brake (profiles tr ! dof))
                                    + t_sum (profiles tr ! dof) ! 6))
                           (pf (profiles tr ! dof)) (vf (profiles tr ! dof))
                           (af (profiles tr ! dof)) 0))
                  [0 ..< length (profiles tr)]
                  (new_position, new_velocity, new_acceleration), 1)"
    using assms by (intro at_time_after) simp_all
  then show ?thesis
    unfolding fold_write_state using assms(2-4) by simp
qed

lemma integrate_zero_jerk:
  "integrate t p0 v0 a0 0 = (p0 + v0 * t + a0 * t\<^sup>2 / 2, v0 + a0 * t, a0)"
  by (simp add: integrate_def)

text \<open>
  Claim C8 at one DoF that ends at position 1 with velocity 2 after 3 seconds, sampled
  at 4 seconds.
\<close>

theorem at_time_after_duration_witness:
  "at_time (ex_trajectory 1 [(ex_profile 3 UP 0)\<lparr>pf := 1, vf := 2\<rparr>] [ex_block0] 3) 4 [0] [0] [0]
     = Inr (([3], [2], [0]), 1)"
  using at_time_after_duration[of "ex_trajectory 1 [(ex_profile 3 UP 0)\<lparr>pf := 1, vf := 2\<rparr>] [ex_block0] 3" 4 "[0]" "[0]" "[0]"]
  by (auto simp: ex_trajectory_def ex_profile_def ex_brake_def integrate_def length_Suc_conv)

section \<open>Properties of the synchronizer\<close>

subsection \<open>The order of candidates\<close>

lemma tsync_le_trans:
  "\<not> tsync_less y x \<Longrightarrow> \<not> tsync_less z y \<Longrightarrow> \<not> tsync_less z x"
  by (cases x; cases y; cases z) auto

lemma tsync_le_antisym:
  "\<not> tsync_less y x \<Longrightarrow> \<not> tsync_less x y \<Longrightarrow> x = y"
  by (cases x; cases y) auto

lemma tsync_less_asym: "tsync_less x y \<Longrightarrow> \<not> tsync_less y x"
  by (cases x; cases y) auto

lemma tsync_le_Fin: "\<not> tsync_less (Fin y) (Fin x) \<longleftrightarrow> x \<le> y"
  by auto

subsection \<open>Rounding to the nearest double\<close>

text \<open>
  \<open>binary_exponent\<close> is the exponent of its argument: \<open>2^e \<le> a < 2^(e + 1)\<close>.
\<close>

lemma bit_length_nonneg: "0 \<le> bit_length n"
  by (induction n rule: bit_length.induct) (subst bit_length.simps, simp)

lemma bit_length_bounds:
  "0 < n \<Longrightarrow> 2 ^ nat (bit_length n - 1) \<le> n \<and> n < 2 ^ nat (bit_length n)"
proof (induction n rule: bit_length.induct)
  case (1 n)
  have bl: "bit_length n = 1 + bit_length (n div 2)"
    using 1(2) by (subst bit_length.simps) simp
  show ?case
  proof (cases "n div 2 = 0")
    case True
    with 1(2) have "n = 1" by linarith
    then show ?thesis by (simp add: bit_length.simps)
  next
    case False
    with 1(2) have pos: "0 < n div 2" by linarith
    with 1 have ih: "2 ^ nat (bit_length (n div 2) - 1) \<le> n div 2"
      "n div 2 < 2 ^ nat (bit_length (n div 2))" by simp_all
    let ?k = "bit_length (n div 2)"
    have k: "1 \<le> ?k"
      using pos bit_length_nonneg[of "n div 2 div 2"]
      by (subst bit_length.simps) simp
    then have e1: "nat (1 + ?k - 1) = Suc (nat (?k - 1))" and e2: "nat (1 + ?k) = Suc (nat ?k)"
      by simp_all
    have "2 * 2 ^ nat (?k - 1) \<le> 2 * (n div 2)" using ih(1) by simp
    also have "\<dots> \<le> n" by simp
    finally have lo: "2 ^ nat (1 + ?k - 1) \<le> n" unfolding e1 by simp
    have "n < 2 * (n div 2 + 1)" by presburger
    also have "\<dots> \<le> 2 * 2 ^ nat ?k" using ih(2) by simp
    finally have hi: "n < 2 ^ nat (1 + ?k)" unfolding e2 by simp
    from lo hi show ?thesis unfolding bl by simp
  qed
qed

lemma two_power_le_of_int:
  assumes "(2::int) ^ k \<le> n"
  shows "(2::real) ^ k \<le> of_int n"
proof -
  from assms have "(of_int ((2::int) ^ k) :: real) \<le> of_int n"
    by (simp only: of_int_le_iff)
  then show ?thesis by simp
qed

lemma of_int_le_two_power:
  assumes "n \<le> (2::int) ^ k"
  shows "(of_int n :: real) \<le> 2 ^ k"
proof -
  from assms have "(of_int n :: real) \<le> of_int ((2::int) ^ k)"
    by (simp only: of_int_le_iff)
  then show ?thesis by simp
qed

lemma binary_exponent_bounds:
  assumes "0 < a"
  shows "two_power (binary_exponent a) \<le> a \<and> a < two_power (binary_exponent a + 1)"
proof (cases "1 \<le> a")
  case True
  let ?n = "\<lfloor>a\<rfloor>"
  from True have n: "0 < ?n" by simp
  have e: "binary_exponent a = bit_length ?n - 1"
    using True by (simp add: binary_exponent_def)
  have nn: "0 \<le> bit_length ?n - 1"
    using n bit_length_nonneg[of "?n div 2"] by (subst bit_length.simps) simp
  from bit_length_bounds[OF n]
  have lo: "2 ^ nat (bit_length ?n - 1) \<le> ?n" and hi: "?n < 2 ^ nat (bit_length ?n)" by simp_all
  from lo have "(2::real) ^ nat (bit_length ?n - 1) \<le> of_int ?n"
    by (rule two_power_le_of_int)
  also have "\<dots> \<le> a" by simp
  finally have 1: "two_power (binary_exponent a) \<le> a"
    using nn by (simp add: e two_power_def)
  from hi have "?n + 1 \<le> 2 ^ nat (bit_length ?n)" by simp
  then have "(of_int (?n + 1) :: real) \<le> 2 ^ nat (bit_length ?n)"
    by (rule of_int_le_two_power)
  moreover have "a < of_int (?n + 1)" by linarith
  ultimately have "a < 2 ^ nat (bit_length ?n)" by linarith
  then have 2: "a < two_power (binary_exponent a + 1)"
    using nn by (simp add: e two_power_def)
  from 1 2 show ?thesis by simp
next
  case False
  let ?y = "1 / a"
  let ?m = "\<lceil>?y\<rceil> - 1"
  let ?k = "bit_length ?m"
  from False assms have y: "1 < ?y" by simp
  then have m: "0 < ?m" by linarith
  have e: "binary_exponent a = - ?k"
    using False by (simp add: binary_exponent_def)
  have k: "1 \<le> ?k"
    using m bit_length_nonneg[of "?m div 2"] by (subst bit_length.simps) simp
  from bit_length_bounds[OF m]
  have lo: "2 ^ nat (?k - 1) \<le> ?m" and hi: "?m < 2 ^ nat ?k" by simp_all
  from hi have "\<lceil>?y\<rceil> \<le> 2 ^ nat ?k" by simp
  then have "(of_int \<lceil>?y\<rceil> :: real) \<le> 2 ^ nat ?k"
    by (rule of_int_le_two_power)
  moreover have "?y \<le> of_int \<lceil>?y\<rceil>" by simp
  ultimately have "?y \<le> 2 ^ nat ?k" by linarith
  then have "1 \<le> 2 ^ nat ?k * a"
    unfolding pos_divide_le_eq[OF assms] .
  then have "1 \<le> a * 2 ^ nat ?k"
    by (simp only: mult.commute)
  then have "1 / 2 ^ nat ?k \<le> a"
    unfolding pos_divide_le_eq[OF zero_less_power[OF zero_less_numeral]] .
  then have 1: "two_power (binary_exponent a) \<le> a"
    using k by (simp add: e two_power_def)
  from lo have "(2::real) ^ nat (?k - 1) \<le> of_int ?m"
    by (rule two_power_le_of_int)
  moreover have "of_int ?m < ?y"
    using ceiling_correct[of ?y] by simp
  ultimately have h: "2 ^ nat (?k - 1) < ?y" by (rule le_less_trans)
  have p: "(0::real) < 2 ^ nat (?k - 1)" by simp
  from h have "2 ^ nat (?k - 1) * a < 1"
    unfolding pos_less_divide_eq[OF assms] .
  then have "a * 2 ^ nat (?k - 1) < 1"
    by (simp only: mult.commute)
  then have lt: "a < 1 / 2 ^ nat (?k - 1)"
    unfolding pos_less_divide_eq[OF p] .
  have 2: "a < two_power (binary_exponent a + 1)"
  proof (cases "?k = 1")
    case True
    with lt show ?thesis by (simp add: e two_power_def)
  next
    case False
    with k have "1 < ?k" by simp
    with lt show ?thesis by (simp add: e two_power_def)
  qed
  from 1 2 show ?thesis by simp
qed

text \<open>
  The double arithmetic at decimal quanta. The double nearest to 0.1 is above 0.1, and
  1.1 divided by it rounds to 11: 1.1 stays 1.1, where the exact quotient rounds up to
  12 quanta. 3.5000000000000004 divided by it rounds to 35: the result 3.5 is under the
  argument. And 0.25 becomes 0.30000000000000004, which becomes 0.4: rounding a rounded
  value moves it.
\<close>

lemma round_double_tenth:
  "round_double (1 / 10) = Fin ex_0_1 \<and> round_double (3 * ex_0_1) = Fin ex_0_3
   \<and> round_double (4 / 10) = Fin ex_0_4 \<and> round_double (11 / 10) = Fin ex_1_1"
  by code_simp

lemma round_up_tenth:
  "round_up ex_0_1 (Fin ex_1_1) = Fin ex_1_1
   \<and> round_up ex_0_1 (Fin ex_3_5) = Fin (7 / 2) \<and> 7 / 2 < ex_3_5
   \<and> round_up ex_0_1 (Fin (1 / 4)) = Fin ex_0_3
   \<and> round_up ex_0_1 (Fin ex_0_3) = Fin ex_0_4 \<and> ex_0_3 < ex_0_4"
  by code_simp

subsection \<open>Insertion sort sorts\<close>

lemma set_insert_by: "set (insert_by lt x xs) = insert x (set xs)"
  by (induction xs) auto

lemma distinct_insert_by: "distinct xs \<Longrightarrow> x \<notin> set xs \<Longrightarrow> distinct (insert_by lt x xs)"
  by (induction xs) (auto simp: set_insert_by)

lemma sorted_insert_by:
  assumes "\<And>a b c. \<not> lt b a \<Longrightarrow> \<not> lt c b \<Longrightarrow> \<not> lt c a"
    and "\<And>a b. lt a b \<Longrightarrow> \<not> lt b a"
    and "sorted_wrt (\<lambda>a b. \<not> lt b a) xs"
  shows "sorted_wrt (\<lambda>a b. \<not> lt b a) (insert_by lt x xs)"
  using assms(3)
proof (induction xs)
  case Nil
  show ?case by simp
next
  case (Cons y ys)
  show ?case
  proof (cases "lt y x")
    case True
    then have "\<not> lt x y" by (rule assms(2))
    with True Cons show ?thesis by (auto simp: set_insert_by)
  next
    case False
    have "\<forall>z\<in>set ys. \<not> lt z x"
    proof
      fix z assume "z \<in> set ys"
      with Cons.prems have "\<not> lt z y" by simp
      with False show "\<not> lt z x" using assms(1) by blast
    qed
    with False Cons.prems show ?thesis by auto
  qed
qed

lemma insertion_sort_set: "set (insertion_sort lt xs) = set xs"
  by (induction xs) (auto simp: insertion_sort_def set_insert_by)

lemma insertion_sort_distinct: "distinct xs \<Longrightarrow> distinct (insertion_sort lt xs)"
  by (induction xs) (auto simp: insertion_sort_def distinct_insert_by set_insert_by
      insertion_sort_set[unfolded insertion_sort_def])

lemma insertion_sort_sorted:
  assumes "\<And>a b c. \<not> lt b a \<Longrightarrow> \<not> lt c b \<Longrightarrow> \<not> lt c a"
    and "\<And>a b. lt a b \<Longrightarrow> \<not> lt b a"
  shows "sorted_wrt (\<lambda>a b. \<not> lt b a) (insertion_sort lt xs)"
proof (induction xs)
  case Nil
  show ?case by (simp add: insertion_sort_def)
next
  case (Cons x xs)
  have "insertion_sort lt (x # xs) = insert_by lt x (insertion_sort lt xs)"
    by (simp add: insertion_sort_def)
  with Cons sorted_insert_by[of lt "insertion_sort lt xs" x] assms show ?case by metis
qed

lemma insertion_sort_sorted_indices:
  "sorted_indices cands n
     (insertion_sort (\<lambda>i j. tsync_less (cands ! i) (cands ! j)) [0 ..< n])"
  unfolding sorted_indices_def
proof (intro conjI)
  show "distinct (insertion_sort (\<lambda>i j. tsync_less (cands ! i) (cands ! j)) [0 ..< n])"
    by (rule insertion_sort_distinct) simp
  show "set (insertion_sort (\<lambda>i j. tsync_less (cands ! i) (cands ! j)) [0 ..< n]) = {0 ..< n}"
    by (simp add: insertion_sort_set)
  show "sorted_wrt (\<lambda>i j. \<not> tsync_less (cands ! j) (cands ! i))
          (insertion_sort (\<lambda>i j. tsync_less (cands ! i) (cands ! j)) [0 ..< n])"
  proof (rule insertion_sort_sorted)
    fix i j c
    assume "\<not> tsync_less (cands ! j) (cands ! i)" "\<not> tsync_less (cands ! c) (cands ! j)"
    then show "\<not> tsync_less (cands ! c) (cands ! i)" by (rule tsync_le_trans)
  next
    fix i j
    assume "tsync_less (cands ! i) (cands ! j)"
    then show "\<not> tsync_less (cands ! j) (cands ! i)" by (rule tsync_less_asym)
  qed
qed

subsection \<open>The candidates\<close>

lemma length_possible_t_syncs:
  "length (possible_t_syncs dofs blks fl discrete delta) = 3 * dofs + 1"
  by (simp add: possible_t_syncs_def Let_def)

lemma possible_t_syncs_t_min:
  "j < dofs \<Longrightarrow>
   possible_t_syncs dofs blks fl discrete delta ! j
     = (if discrete then round_up delta (Fin (t_min (blks ! j))) else Fin (t_min (blks ! j)))"
  by (simp add: possible_t_syncs_def Let_def nth_append)

lemma possible_t_syncs_discrete:
  "possible_t_syncs dofs blks fl True delta
     = map (round_up delta) (possible_t_syncs dofs blks fl False delta)"
  by (simp add: possible_t_syncs_def Let_def)

lemma possible_t_syncs_no_interval:
  assumes "\<not> any_interval dofs blks fl" "dofs \<le> k" "k < 3 * dofs + 1"
  shows "possible_t_syncs dofs blks fl discrete delta ! k = PInf"
proof -
  from assms(1) have fl: "fl = None"
    and no: "\<And>d. d < dofs \<Longrightarrow> blk_a (blks ! d) = None \<and> blk_b (blks ! d) = None"
    by (auto simp: any_interval_def list_ex_iff)
  have raw: "possible_t_syncs dofs blks fl False delta ! k = PInf"
    using assms(2,3) no fl
    by (auto simp: possible_t_syncs_def Let_def nth_append nth_Cons split: nat.splits)
  show ?thesis
  proof (cases discrete)
    case True
    with raw assms(3) show ?thesis
      by (simp add: possible_t_syncs_discrete length_possible_t_syncs)
  next
    case False
    with raw show ?thesis by simp
  qed
qed

subsection \<open>The scan\<close>

lemma sync_scan_Some:
  "sync_scan blks fl cands L = Some (i, v) \<Longrightarrow>
   i \<in> set L \<and> v = cands ! i \<and> \<not> skipped blks fl v"
  by (induction L) (auto split: if_splits)

lemma sync_scan_first:
  assumes "sync_scan blks fl cands L = Some (i, v)"
    and "sorted_wrt (\<lambda>i j. \<not> tsync_less (cands ! j) (cands ! i)) L"
    and "e \<in> set L" "\<not> skipped blks fl (cands ! e)"
  shows "\<not> tsync_less (cands ! e) v"
  using assms
proof (induction L)
  case Nil
  then show ?case by simp
next
  case (Cons x rest)
  show ?case
  proof (cases "skipped blks fl (cands ! x)")
    case True
    with Cons.prems have "e \<in> set rest" by auto
    with True Cons show ?thesis by auto
  next
    case False
    with Cons.prems have v: "v = cands ! x" by auto
    show ?thesis
    proof (cases "e = x")
      case True
      with v show ?thesis using tsync_less_asym[of v v] by auto
    next
      case False
      with Cons.prems have "e \<in> set rest" by simp
      with Cons.prems(2) v show ?thesis by simp
    qed
  qed
qed

lemma skipped_iff:
  "skipped blks fl (Fin c) \<longleftrightarrow>
     (\<exists>b\<in>set blks. is_blocked b c) \<or> c < (case fl of Some f \<Rightarrow> f | None \<Rightarrow> 0)"
  by (simp add: list_ex_iff)

lemma is_blocked_forbidden:
  "is_blocked block t \<longleftrightarrow> t < t_min block \<or> in_forbidden_interval block t"
  by (auto simp: is_blocked_def in_forbidden_interval_def split: option.splits)

subsection \<open>The selected duration\<close>

lemma synchronize_scan:
  assumes "\<not> (dofs = 1 \<and> fl = None \<and> \<not> discrete)"
    and "synchronize srt dofs blks fl profs discrete delta = Sync_True t ldof profs'"
  shows "0 < dofs \<and>
         (\<exists>i. sync_scan blks fl (possible_t_syncs dofs blks fl discrete delta)
                 (drop (dofs - 1)
                    (srt (\<lambda>i j. tsync_less (possible_t_syncs dofs blks fl discrete delta ! i)
                                           (possible_t_syncs dofs blks fl discrete delta ! j))
                         [0 ..< (if any_interval dofs blks fl then 3 * dofs + 1 else dofs)]))
               = Some (i, Fin t))"
  using assms unfolding synchronize_def Let_def
  by (auto split: if_splits option.splits prod.splits tsync.splits)

lemma scan_minimal:
  assumes dofs: "0 < dofs" "dofs = length blks"
    and wf: "\<forall>b\<in>set blks. wf_block b"
    and cands: "cands = possible_t_syncs dofs blks fl discrete delta"
    and n: "n = (if any_interval dofs blks fl then 3 * dofs + 1 else dofs)"
    and srt: "sorted_indices cands n idx"
    and scan: "sync_scan blks fl cands (drop (dofs - 1) idx) = Some (i, Fin t)"
    and cin: "Fin c \<in> set cands"
    and tmin: "\<forall>b\<in>set blks. t_min b \<le> c"
    and free: "\<forall>b\<in>set blks. \<not> in_forbidden_interval b c"
    and floor: "\<forall>f. fl = Some f \<longrightarrow> f \<le> c"
    and below: "\<forall>j<dofs. \<not> tsync_less (Fin c) (cands ! j)"
  shows "t \<le> c"
proof -
  let ?le = "\<lambda>i j. \<not> tsync_less (cands ! j) (cands ! i)"
  let ?L = "drop (dofs - 1) idx"
  from srt have set_idx: "set idx = {0 ..< n}" and sorted: "sorted_wrt ?le idx"
    by (simp_all add: sorted_indices_def)
  have set_parts: "set idx = set (take (dofs - 1) idx) \<union> set ?L"
    by (metis append_take_drop_id set_append)
  have sorted_L: "sorted_wrt ?le ?L"
    using sorted by (rule sorted_wrt_drop)
  have "sorted_wrt ?le (take (dofs - 1) idx @ ?L)"
    using sorted by simp
  then have before: "\<And>x y. x \<in> set (take (dofs - 1) idx) \<Longrightarrow> y \<in> set ?L \<Longrightarrow> ?le x y"
    unfolding sorted_wrt_append by blast
  from cin obtain k where k: "k < length cands" "cands ! k = Fin c"
    by (auto simp: in_set_conv_nth)
  \<comment> \<open>the candidate is not skipped\<close>
  from dofs have "blks ! 0 \<in> set blks" by simp
  with wf tmin have "0 \<le> c" by (force simp: wf_block_def)
  with tmin free floor have notskip: "\<not> skipped blks fl (Fin c)"
    by (fastforce simp: list_ex_iff is_blocked_forbidden split: option.splits)
  \<comment> \<open>no first candidate of a DoF exceeds the candidate\<close>
  have below: "?le j k" if "j < dofs" for j
    using below that k(2) by simp
  \<comment> \<open>the candidate is among the sorted indices\<close>
  have "k < n"
  proof (rule ccontr)
    assume "\<not> k < n"
    with n k(1) have "\<not> any_interval dofs blks fl" "dofs \<le> k" "k < 3 * dofs + 1"
      by (auto simp: cands length_possible_t_syncs split: if_splits)
    then have "cands ! k = PInf"
      unfolding cands by (rule possible_t_syncs_no_interval)
    with k(2) show False by simp
  qed
  with set_idx have k_idx: "k \<in> set idx" by simp
  \<comment> \<open>some index of the scanned part carries the candidate's value\<close>
  have "\<exists>e \<in> set ?L. cands ! e = Fin c"
  proof (cases "k \<in> set ?L")
    case True
    with k(2) show ?thesis by blast
  next
    case False
    with k_idx set_parts have k_before: "k \<in> set (take (dofs - 1) idx)"
      by blast
    have "\<exists>j < dofs. j \<in> set ?L"
    proof (rule ccontr)
      assume none: "\<not> (\<exists>j < dofs. j \<in> set ?L)"
      have "dofs \<le> n" using n by (simp split: if_splits)
      with set_idx have "{0 ..< dofs} \<subseteq> set idx" by auto
      with none set_parts have "{0 ..< dofs} \<subseteq> set (take (dofs - 1) idx)"
        by auto
      then have "card {0 ..< dofs} \<le> card (set (take (dofs - 1) idx))"
        by (intro card_mono) simp_all
      also have "\<dots> \<le> length (take (dofs - 1) idx)" by (rule card_length)
      also have "\<dots> \<le> dofs - 1" by simp
      finally show False using dofs(1) by simp
    qed
    then obtain j where j: "j < dofs" "j \<in> set ?L" by blast
    then have ne: "?L \<noteq> []" by auto
    let ?h = "hd ?L"
    from ne have h_in: "?h \<in> set ?L" by simp
    have "?le k ?h" using before k_before h_in by blast
    moreover have "?le ?h j"
    proof (cases "j = ?h")
      case True
      then show ?thesis using tsync_less_asym by blast
    next
      case False
      with j(2) ne have "j \<in> set (tl ?L)" by (cases ?L) auto
      with sorted_L ne show ?thesis by (cases ?L) auto
    qed
    moreover have "?le j k" using below j(1) .
    ultimately have up: "?le k ?h" and down: "?le ?h k"
      using tsync_le_trans[of "cands ! j" "cands ! ?h" "cands ! k"] by simp_all
    have "cands ! k = cands ! ?h"
      using up down by (rule tsync_le_antisym)
    then have "cands ! ?h = cands ! k" by (rule sym)
    with h_in k(2) show ?thesis by auto
  qed
  then obtain e where e: "e \<in> set ?L" "cands ! e = Fin c" by blast
  with notskip have "\<not> skipped blks fl (cands ! e)" by simp
  with scan sorted_L e(1) have "\<not> tsync_less (cands ! e) (Fin t)"
    by (rule sync_scan_first)
  with e(2) show ?thesis by simp
qed

text \<open>
  With a quantum, a duration that no DoF blocks can be left out: for two DoFs with the
  minimal durations 0.25 and 0.30000000000000004 and the quantum 0.1, the candidates are
  0.30000000000000004 and 0.4. The first is not under a minimal duration and no DoF
  blocks it, but the scan starts at the second entry and selects 0.4.
\<close>

lemma synchronize_quantum_skips:
  "possible_t_syncs 2 [Block_of (ex_profile (1 / 4) UP 0), Block_of (ex_profile ex_0_3 UP 0)]
       None True ex_0_1
     = [Fin ex_0_3, Fin ex_0_4, PInf, PInf, PInf, PInf, PInf]
   \<and> \<not> skipped [Block_of (ex_profile (1 / 4) UP 0), Block_of (ex_profile ex_0_3 UP 0)]
          None (Fin ex_0_3)
   \<and> synchronize insertion_sort 2
        [Block_of (ex_profile (1 / 4) UP 0), Block_of (ex_profile ex_0_3 UP 0)]
        None [ex_profile 0 UP 0, ex_profile 0 UP 0] True ex_0_1
     = Sync_True ex_0_4 1 [ex_profile 0 UP 0, ex_profile ex_0_3 UP 0]"
  by code_simp

text \<open>
  Claim C1, amended. The blocks are as Step 1 builds them, one per DoF, and the sort
  returns a sorted permutation of the indices. The candidates are, per DoF, \<open>t_min\<close>,
  \<open>a.right\<close> or \<open>+\<infinity>\<close>, \<open>b.right\<close> or \<open>+\<infinity>\<close>, and the floor or \<open>+\<infinity>\<close>; with a
  quantum each is replaced by \<^verbatim>\<open>std::ceil(x / delta_time) * delta_time\<close> as the double
  arithmetic computes it. When \<^verbatim>\<open>synchronize\<close> returns true, \<open>t_sync\<close> is one of
  these candidates, it is not under the \<open>t_min\<close> of any DoF, not strictly inside a
  forbidden interval of any DoF, and not under the floor. It is the first such candidate
  in ascending order from the largest \<open>t_min\<close> on: no candidate with these three
  properties is smaller, where with a quantum the candidates count that are not under the
  rounded \<open>t_min\<close> of any DoF.
\<close>

theorem synchronize_first_candidate:
  assumes len: "dofs = length blks"
    and wf: "\<forall>b\<in>set blks. wf_block b"
    and srt: "sorted_indices (possible_t_syncs dofs blks fl discrete delta)
                (if any_interval dofs blks fl then 3 * dofs + 1 else dofs)
                (srt (\<lambda>i j. tsync_less (possible_t_syncs dofs blks fl discrete delta ! i)
                                       (possible_t_syncs dofs blks fl discrete delta ! j))
                     [0 ..< (if any_interval dofs blks fl then 3 * dofs + 1 else dofs)])"
    and res: "synchronize srt dofs blks fl profs discrete delta = Sync_True t ldof profs'"
  shows "Fin t \<in> set (possible_t_syncs dofs blks fl discrete delta)
       \<and> (\<forall>b\<in>set blks. t_min b \<le> t \<and> \<not> in_forbidden_interval b t)
       \<and> (\<forall>f. fl = Some f \<longrightarrow> f \<le> t)
       \<and> (\<forall>c. Fin c \<in> set (possible_t_syncs dofs blks fl discrete delta)
                \<and> (\<forall>b\<in>set blks. t_min b \<le> c \<and> \<not> in_forbidden_interval b c)
                \<and> (\<forall>f. fl = Some f \<longrightarrow> f \<le> c)
                \<and> (discrete \<longrightarrow>
                     (\<forall>dof<dofs. \<not> tsync_less (Fin c)
                                      (possible_t_syncs dofs blks fl discrete delta ! dof)))
              \<longrightarrow> t \<le> c)"
proof (cases "dofs = 1 \<and> fl = None \<and> \<not> discrete")
  case True
  with len obtain b where blks: "blks = [b]"
    by (cases blks) auto
  from True res have t: "t = t_min b"
    by (simp add: synchronize_def blks)
  from wf have "\<not> in_forbidden_interval b (t_min b)"
    by (auto simp: blks wf_block_def in_forbidden_interval_def)
  moreover have "Fin (t_min b) \<in> set (possible_t_syncs dofs blks fl discrete delta)"
    using True by (simp add: possible_t_syncs_def blks)
  ultimately show ?thesis
    using True by (simp add: t blks)
next
  case False
  let ?cands = "possible_t_syncs dofs blks fl discrete delta"
  let ?n = "if any_interval dofs blks fl then 3 * dofs + 1 else dofs"
  let ?idx = "srt (\<lambda>i j. tsync_less (?cands ! i) (?cands ! j)) [0 ..< ?n]"
  from False res have pos: "0 < dofs"
    and "\<exists>i. sync_scan blks fl ?cands (drop (dofs - 1) ?idx) = Some (i, Fin t)"
    using synchronize_scan[of dofs fl discrete srt blks profs delta t ldof profs'] by simp_all
  then obtain i where scan: "sync_scan blks fl ?cands (drop (dofs - 1) ?idx) = Some (i, Fin t)"
    by blast
  have i: "i \<in> set (drop (dofs - 1) ?idx)" and v: "Fin t = ?cands ! i"
    and notskip: "\<not> skipped blks fl (Fin t)"
    using sync_scan_Some[OF scan] by blast+
  from i have "i \<in> set ?idx" by (rule in_set_dropD)
  with srt have "i < ?n" by (simp add: sorted_indices_def)
  then have "i < length ?cands" by (simp add: length_possible_t_syncs split: if_splits)
  with v have 1: "Fin t \<in> set ?cands" by simp
  from notskip have 2: "\<forall>b\<in>set blks. t_min b \<le> t \<and> \<not> in_forbidden_interval b t"
    by (auto simp: list_ex_iff is_blocked_forbidden)
  from notskip have 3: "\<forall>f. fl = Some f \<longrightarrow> f \<le> t"
    by auto
  have 4: "t \<le> c"
    if "Fin c \<in> set ?cands \<and> (\<forall>b\<in>set blks. t_min b \<le> c \<and> \<not> in_forbidden_interval b c)
          \<and> (\<forall>f. fl = Some f \<longrightarrow> f \<le> c)
          \<and> (discrete \<longrightarrow> (\<forall>dof<dofs. \<not> tsync_less (Fin c) (?cands ! dof)))" for c
  proof -
    from that have a: "Fin c \<in> set ?cands"
      and b: "\<forall>b\<in>set blks. t_min b \<le> c"
      and f: "\<forall>b\<in>set blks. \<not> in_forbidden_interval b c"
      and d: "\<forall>f. fl = Some f \<longrightarrow> f \<le> c"
      and q: "discrete \<longrightarrow> (\<forall>dof<dofs. \<not> tsync_less (Fin c) (?cands ! dof))"
      by blast+
    have below: "\<forall>j<dofs. \<not> tsync_less (Fin c) (?cands ! j)"
    proof (cases discrete)
      case True
      with q show ?thesis by simp
    next
      case False
      show ?thesis
      proof (intro allI impI)
        fix j assume j: "j < dofs"
        with len have "blks ! j \<in> set blks" by simp
        with b have "t_min (blks ! j) \<le> c" by simp
        with False j show "\<not> tsync_less (Fin c) (?cands ! j)"
          by (simp add: possible_t_syncs_t_min)
      qed
    qed
    show ?thesis
      by (rule scan_minimal[OF pos len wf refl refl srt scan a b f d below])
  qed
  from 1 2 3 4 show ?thesis by blast
qed

text \<open>
  Claim C1 as stated fails with a quantum: for one DoF with \<open>t_min = 3\<close>, no interval
  and no floor, and the quantum 2, the candidates of the claim are 3 and \<open>+\<infinity>\<close>, and
  \<^verbatim>\<open>synchronize\<close> selects 4.
\<close>

theorem synchronize_quantum_counterexample:
  "synchronize insertion_sort 1 [Block_of (ex_profile 3 UP 0)] None [ex_profile 0 UP 0] True 2
     = Sync_True 4 0 [ex_profile 3 UP 0]
   \<and> t_min (Block_of (ex_profile 3 UP 0)) = 3
   \<and> blk_a (Block_of (ex_profile 3 UP 0)) = None
   \<and> blk_b (Block_of (ex_profile 3 UP 0)) = None
   \<and> possible_t_syncs 1 [Block_of (ex_profile 3 UP 0)] None False 2 = [Fin 3, PInf, PInf, PInf]"
  by code_simp

text \<open>
  The amended claim C1 at two DoFs without floor: the first DoF has \<open>t_min = 1\<close> and
  the interval from 2 to 5, the second has \<open>t_min = 3\<close>. Without a quantum the
  candidate 3 lies in the interval, and 5 is selected. With the quantum 2 the candidates
  are 2, 4 and 6; 4 lies in the interval, and 6 is selected.
\<close>

theorem synchronize_first_candidate_witness:
  "synchronize insertion_sort 2
       [ex_block_a (ex_profile 1 UP 0) 2 (ex_profile 5 DOWN 0), Block_of (ex_profile 3 UP 0)]
       None [ex_profile 0 UP 0, ex_profile 0 UP 0] False 1
     = Sync_True 5 0 [ex_profile 5 DOWN 0, ex_profile 0 UP 0]
   \<and> \<not> in_forbidden_interval (ex_block_a (ex_profile 1 UP 0) 2 (ex_profile 5 DOWN 0)) 5
   \<and> \<not> in_forbidden_interval (Block_of (ex_profile 3 UP 0)) 5
   \<and> Fin 5 \<in> set (possible_t_syncs 2
       [ex_block_a (ex_profile 1 UP 0) 2 (ex_profile 5 DOWN 0), Block_of (ex_profile 3 UP 0)]
       None False 1)
   \<and> synchronize insertion_sort 2
       [ex_block_a (ex_profile 1 UP 0) 2 (ex_profile 5 DOWN 0), Block_of (ex_profile 3 UP 0)]
       None [ex_profile 0 UP 0, ex_profile 0 UP 0] True 2
     = Sync_True 6 0 [ex_profile 5 DOWN 0, ex_profile 0 UP 0]
   \<and> Fin 6 \<in> set (possible_t_syncs 2
       [ex_block_a (ex_profile 1 UP 0) 2 (ex_profile 5 DOWN 0), Block_of (ex_profile 3 UP 0)]
       None True 2)"
proof -
  let ?blks = "[ex_block_a (ex_profile 1 UP 0) 2 (ex_profile 5 DOWN 0), Block_of (ex_profile 3 UP 0)]"
  have res: "synchronize insertion_sort 2 ?blks None [ex_profile 0 UP 0, ex_profile 0 UP 0] False 1
               = Sync_True 5 0 [ex_profile 5 DOWN 0, ex_profile 0 UP 0]"
    by code_simp
  have res2: "synchronize insertion_sort 2 ?blks None [ex_profile 0 UP 0, ex_profile 0 UP 0] True 2
               = Sync_True 6 0 [ex_profile 5 DOWN 0, ex_profile 0 UP 0]"
    by code_simp
  have wf: "\<forall>b\<in>set ?blks. wf_block b"
    by code_simp
  have len: "2 = length ?blks" by simp
  from synchronize_first_candidate[OF len wf insertion_sort_sorted_indices res]
  have "\<not> in_forbidden_interval (ex_block_a (ex_profile 1 UP 0) 2 (ex_profile 5 DOWN 0)) 5
      \<and> \<not> in_forbidden_interval (Block_of (ex_profile 3 UP 0)) 5
      \<and> Fin 5 \<in> set (possible_t_syncs 2 ?blks None False 1)"
    by simp
  moreover from synchronize_first_candidate[OF len wf insertion_sort_sorted_indices res2]
  have "Fin 6 \<in> set (possible_t_syncs 2 ?blks None True 2)"
    by simp
  ultimately show ?thesis using res res2 by simp
qed

section \<open>Properties of the planner\<close>

text \<open>
  The synchronization modes work on the profiles: they leave the blocks, the independent
  minimal durations and the duration that the first loop and the synchronizer have
  written. Calls of the brake, of Step 1, of Step 2 and of the profile check are made for
  enabled DoFs only.
\<close>

subsection \<open>What the parts of the planner leave\<close>

lemma keeps_plan_refl: "keeps_plan tr tr"
  by (simp add: keeps_plan_def)

lemma keeps_plan_trans: "keeps_plan a b \<Longrightarrow> keeps_plan b c \<Longrightarrow> keeps_plan a c"
  by (simp add: keeps_plan_def)

lemma no_call_for_refl: "no_call_for dof tr tr"
  by (simp add: no_call_for_def)

lemma no_call_for_trans:
  assumes "no_call_for dof a b" "no_call_for dof b c"
  shows "no_call_for dof a c"
proof -
  from assms obtain n1 n2 where "trace b = trace a @ n1" "trace c = trace b @ n2"
    and "Call_Brake dof \<notin> set (n1 @ n2)" "Call_Step1 dof \<notin> set (n1 @ n2)"
        "Call_Step2 dof \<notin> set (n1 @ n2)" "Call_Check dof \<notin> set (n1 @ n2)"
    by (auto simp: no_call_for_def)
  then show ?thesis
    unfolding no_call_for_def by (intro exI[of _ "n1 @ n2"]) simp
qed

lemma none_synchronization_keeps:
  "keeps_plan tr (none_synchronization inp ldof tr)
   \<and> trace (none_synchronization inp ldof tr) = trace tr
   \<and> length (profiles (none_synchronization inp ldof tr)) = length (profiles tr)"
  unfolding none_synchronization_def
  by (rule fold_invariant[where Q = "\<lambda>x. True"]) (auto simp: keeps_plan_def)

lemma collinear_check_keeps:
  "collinear_check inp sc mj l dofs tr = (c, tr') \<Longrightarrow>
   keeps_plan tr tr' \<and> trace tr' = trace tr \<and> profiles tr' = profiles tr"
proof (induction dofs arbitrary: tr)
  case Nil
  then show ?case by (simp add: keeps_plan_def)
next
  case (Cons d dofs)
  show ?case
  proof (cases "collinear_check inp sc mj l (d # dofs) tr = collinear_check inp sc mj l dofs tr")
    case True
    with Cons show ?thesis by simp
  next
    case False
    obtain v0 a0 vf af where sc: "sc = (v0, a0, vf, af)" by (cases sc) auto
    let ?tr1 = "tr\<lparr>new_max_jerk := (new_max_jerk tr)[d := pd tr ! d / pd tr ! l * mj]\<rparr>"
    from False Cons.prems sc
    have "tr' = tr \<or> collinear_check inp sc mj l dofs ?tr1 = (c, tr')"
      by (auto split: if_splits)
    then show ?thesis
    proof
      assume "tr' = tr"
      then show ?thesis by (simp add: keeps_plan_def)
    next
      assume "collinear_check inp sc mj l dofs ?tr1 = (c, tr')"
      from Cons.IH[OF this] show ?thesis by (simp add: keeps_plan_def)
    qed
  qed
qed

lemma is_input_collinear_keeps:
  assumes "is_input_collinear inp jMax dir l tr = (c, tr')"
  shows "keeps_plan tr tr' \<and> trace tr' = trace tr \<and> profiles tr' = profiles tr"
proof (cases "collinear_scales inp tr")
  case (Pair pds sc)
  show ?thesis
  proof (cases sc)
    case None
    with Pair assms show ?thesis
      by (auto simp: is_input_collinear_def keeps_plan_def)
  next
    case (Some s)
    with Pair assms
    have "collinear_check inp s (if dir = UP then jMax ! l else - (jMax ! l)) l
            [0 ..< length pds] (tr\<lparr>pd := pds\<rparr>) = (c, tr')"
      by (simp add: is_input_collinear_def)
    from collinear_check_keeps[OF this] show ?thesis by (simp add: keeps_plan_def)
  qed
qed

lemma phase_sync_dof_keeps:
  assumes "phase_sync_dof ext inp l d (f, tr) = (f', tr')"
  shows "keeps_plan tr tr'" "length (profiles tr') = length (profiles tr)"
    "\<not> enabled inp ! dof \<Longrightarrow> no_call_for dof tr tr'"
  using assms unfolding phase_sync_dof_def Let_def keeps_plan_def no_call_for_def
  by (auto split: if_splits)

lemma phase_fold_keeps:
  assumes "fold (phase_sync_dof ext inp l) dofs (f, tr) = (f', tr')"
  shows "keeps_plan tr tr' \<and> length (profiles tr') = length (profiles tr)
       \<and> (\<not> enabled inp ! dof \<longrightarrow> no_call_for dof tr tr')"
  using assms
proof (induction dofs arbitrary: f tr)
  case Nil
  then show ?case by (simp add: keeps_plan_refl no_call_for_refl)
next
  case (Cons d dofs)
  obtain f1 tr1 where d: "phase_sync_dof ext inp l d (f, tr) = (f1, tr1)"
    by (cases "phase_sync_dof ext inp l d (f, tr)")
  with Cons.prems have "fold (phase_sync_dof ext inp l) dofs (f1, tr1) = (f', tr')" by simp
  from Cons.IH[OF this] phase_sync_dof_keeps[OF d]
  show ?case by (auto intro: keeps_plan_trans no_call_for_trans)
qed

lemma time_sync_dof_keeps:
  assumes "time_sync_dof ext inp ldof d tr = (ok, tr')"
  shows "keeps_plan tr tr'" "\<not> enabled inp ! dof \<Longrightarrow> no_call_for dof tr tr'"
  using assms unfolding time_sync_dof_def Let_def keeps_plan_def no_call_for_def
  by (auto split: if_splits)

lemma time_synchronization_keeps:
  assumes "time_synchronization ext inp ldof dofs tr = (ok, tr')"
  shows "keeps_plan tr tr' \<and> (\<not> enabled inp ! dof \<longrightarrow> no_call_for dof tr tr')"
  using assms
proof (induction dofs arbitrary: tr)
  case Nil
  then show ?case by (simp add: keeps_plan_refl no_call_for_refl)
next
  case (Cons d dofs)
  obtain ok1 tr1 where d: "time_sync_dof ext inp ldof d tr = (ok1, tr1)"
    by (cases "time_sync_dof ext inp ldof d tr")
  note k = time_sync_dof_keeps[OF d]
  show ?case
  proof (cases ok1)
    case False
    with d Cons.prems have "tr' = tr1" by simp
    with k show ?thesis by simp
  next
    case True
    with d Cons.prems have "time_synchronization ext inp ldof dofs tr1 = (ok, tr')" by simp
    from Cons.IH[OF this] k show ?thesis
      by (auto intro: keeps_plan_trans no_call_for_trans)
  qed
qed

lemma calculate_time_sync_keeps:
  assumes "calculate_time_sync ext te inp ldof tr = (r, tr')"
  shows "keeps_plan tr tr' \<and> (\<not> enabled inp ! dof \<longrightarrow> no_call_for dof tr tr')"
proof -
  from assms obtain ok where
    "time_synchronization ext inp ldof [0 ..< length (profiles tr)] tr = (ok, tr')"
    unfolding calculate_time_sync_def by (auto split: prod.splits if_splits)
  then show ?thesis by (rule time_synchronization_keeps)
qed

lemma calculate_modes_keeps:
  assumes "calculate_modes ext te inp ldof tr = (r, tr')"
  shows "keeps_plan tr tr' \<and> (\<not> enabled inp ! dof \<longrightarrow> no_call_for dof tr tr')"
proof -
  let ?tr1 = "none_synchronization inp ldof tr"
  have k1: "keeps_plan tr ?tr1" and t1: "trace ?tr1 = trace tr"
    using none_synchronization_keeps[of tr inp ldof] by simp_all
  have n1: "no_call_for dof tr ?tr1"
    using t1 by (simp add: no_call_for_def)
  have step: "keeps_plan tr tr' \<and> (\<not> enabled inp ! dof \<longrightarrow> no_call_for dof tr tr')"
    if "keeps_plan ?tr1 tr'' \<and> no_call_for dof ?tr1 tr''"
      and "calculate_time_sync ext te inp ldof tr'' = (r, tr') \<or> tr' = tr''" for tr''
  proof -
    from that(1) k1 n1 have a: "keeps_plan tr tr''" "no_call_for dof tr tr''"
      by (auto intro: keeps_plan_trans no_call_for_trans)
    from that(2) show ?thesis
    proof
      assume "tr' = tr''"
      with a show ?thesis by simp
    next
      assume "calculate_time_sync ext te inp ldof tr'' = (r, tr')"
      from calculate_time_sync_keeps[OF this] a show ?thesis
        by (auto intro: keeps_plan_trans no_call_for_trans)
    qed
  qed
  consider (direct) "calculate_time_sync ext te inp ldof ?tr1 = (r, tr') \<or> tr' = ?tr1"
    | (phase) c tr2 where
        "is_input_collinear inp (max_jerk inp) (direction (profiles ?tr1 ! nat ldof)) (nat ldof) ?tr1
           = (c, tr2)"
        "c = Not_Finite \<and> tr' = tr2
         \<or> c = Not_Collinear \<and> calculate_time_sync ext te inp ldof tr2 = (r, tr')
         \<or> c = Collinear \<and>
             (\<exists>f tr3. fold (phase_sync_dof ext inp (nat ldof)) [0 ..< length (profiles tr2)]
                         (True, tr2) = (f, tr3)
                \<and> (tr' = tr3 \<or> calculate_time_sync ext te inp ldof tr3 = (r, tr')))"
    using assms unfolding calculate_modes_def Let_def
    by (auto split: if_splits prod.splits collinear.splits)
  then show ?thesis
  proof cases
    case direct
    show ?thesis
      by (rule step[OF _ direct]) (simp add: keeps_plan_refl no_call_for_refl)
  next
    case (phase c tr2)
    from is_input_collinear_keeps[OF phase(1)]
    have k2: "keeps_plan ?tr1 tr2" and t2: "trace tr2 = trace ?tr1" by simp_all
    then have a2: "keeps_plan ?tr1 tr2 \<and> no_call_for dof ?tr1 tr2"
      by (simp add: no_call_for_def)
    from phase(2) show ?thesis
    proof (elim disjE conjE exE)
      assume "tr' = tr2"
      then show ?thesis using step[OF a2] by simp
    next
      assume "calculate_time_sync ext te inp ldof tr2 = (r, tr')"
      then show ?thesis using step[OF a2] by simp
    next
      fix f tr3
      assume f: "fold (phase_sync_dof ext inp (nat ldof)) [0 ..< length (profiles tr2)]
                   (True, tr2) = (f, tr3)"
        and "tr' = tr3"
      from phase_fold_keeps[OF f, of dof] a2 t1
      have k: "keeps_plan tr tr3" and n: "\<not> enabled inp ! dof \<longrightarrow> no_call_for dof tr tr3"
        using k1 n1 by (auto intro: keeps_plan_trans no_call_for_trans)
      with \<open>tr' = tr3\<close> show ?thesis by simp
    next
      fix f tr3
      assume f: "fold (phase_sync_dof ext inp (nat ldof)) [0 ..< length (profiles tr2)]
                   (True, tr2) = (f, tr3)"
        and ts: "calculate_time_sync ext te inp ldof tr3 = (r, tr')"
      from phase_fold_keeps[OF f, of dof] a2
      have k: "keeps_plan tr tr3" and n: "\<not> enabled inp ! dof \<longrightarrow> no_call_for dof tr tr3"
        using k1 n1 by (auto intro: keeps_plan_trans no_call_for_trans)
      from calculate_time_sync_keeps[OF ts, of dof] k n show ?thesis
        by (auto intro: keeps_plan_trans no_call_for_trans)
    qed
  qed
qed

subsection \<open>The first loop\<close>

text \<open>
  For a disabled DoF a round of the first loop writes \<open>pf, vf, af\<close> and \<open>t_sum[6]\<close>
  of the DoF's profile and nothing else. For an enabled DoF whose Step 1 succeeds it
  stores the brake duration of \<open>p_min\<close> plus \<open>t_min\<close> as the independent minimal
  duration.
\<close>

lemma calculate_dof_disabled:
  "\<not> enabled inp ! dof \<Longrightarrow>
   calculate_dof ext inp dof tr =
     (True, tr\<lparr>profiles := (profiles tr)
                   [dof := (profiles tr ! dof)\<lparr>pf := current_position inp ! dof,
                                                vf := current_velocity inp ! dof,
                                                af := current_acceleration inp ! dof,
                                                t_sum := (t_sum (profiles tr ! dof))[6 := 0]\<rparr>]\<rparr>)"
  by (simp add: calculate_dof_def Let_def)

lemma calculate_dof_props:
  assumes "calculate_dof ext inp d tr = (ok, tr')"
  shows "length (blocks tr') = length (blocks tr)"
    "length (independent_min_durations tr') = length (independent_min_durations tr)"
    "length (profiles tr') = length (profiles tr)"
    "degrees_of_freedom tr' = degrees_of_freedom tr"
    "k \<noteq> d \<Longrightarrow> blocks tr' ! k = blocks tr ! k"
    "k \<noteq> d \<Longrightarrow> independent_min_durations tr' ! k = independent_min_durations tr ! k"
    "\<not> enabled inp ! dof \<Longrightarrow> no_call_for dof tr tr'"
    "ok \<Longrightarrow> enabled inp ! d \<Longrightarrow> d < length (blocks tr)
       \<Longrightarrow> d < length (independent_min_durations tr)
       \<Longrightarrow> independent_min_durations tr' ! d
            = brake_duration (brake (p_min (blocks tr' ! d))) + t_min (blocks tr' ! d)"
  using assms unfolding calculate_dof_def Let_def no_call_for_def
  by (auto split: if_splits)

lemma calculate_step1_props:
  assumes "calculate_step1 ext inp ds tr = (ok, tr')"
  shows "length (blocks tr') = length (blocks tr)
       \<and> length (independent_min_durations tr') = length (independent_min_durations tr)
       \<and> length (profiles tr') = length (profiles tr)
       \<and> degrees_of_freedom tr' = degrees_of_freedom tr
       \<and> (\<not> enabled inp ! dof \<longrightarrow> no_call_for dof tr tr')"
  using assms
proof (induction ds arbitrary: tr)
  case Nil
  then show ?case by (simp add: no_call_for_refl)
next
  case (Cons d ds)
  obtain ok1 tr1 where d: "calculate_dof ext inp d tr = (ok1, tr1)"
    by (cases "calculate_dof ext inp d tr")
  note p = calculate_dof_props(1-4,7)[OF d]
  show ?case
  proof (cases ok1)
    case False
    with d Cons.prems have "tr' = tr1" by simp
    with p show ?thesis by simp
  next
    case True
    with d Cons.prems have "calculate_step1 ext inp ds tr1 = (ok, tr')" by simp
    from Cons.IH[OF this] p show ?thesis
      by (auto intro: no_call_for_trans)
  qed
qed

lemma calculate_step1_independent_min:
  assumes "calculate_step1 ext inp ds tr = (True, tr')"
    and "distinct ds" "\<forall>d\<in>set ds. d < length (blocks tr)"
    and "length (independent_min_durations tr) = length (blocks tr)"
  shows "(\<forall>d\<in>set ds. enabled inp ! d \<longrightarrow>
            independent_min_durations tr' ! d
              = brake_duration (brake (p_min (blocks tr' ! d))) + t_min (blocks tr' ! d))
       \<and> (\<forall>k. k \<notin> set ds \<longrightarrow> blocks tr' ! k = blocks tr ! k
              \<and> independent_min_durations tr' ! k = independent_min_durations tr ! k)"
  using assms
proof (induction ds arbitrary: tr)
  case Nil
  then show ?case by simp
next
  case (Cons d ds)
  obtain ok1 tr1 where d: "calculate_dof ext inp d tr = (ok1, tr1)"
    by (cases "calculate_dof ext inp d tr")
  with Cons.prems(1) have ok1: ok1 and loop: "calculate_step1 ext inp ds tr1 = (True, tr')"
    by (auto split: if_splits)
  note p = calculate_dof_props[OF d]
  from Cons.prems have dist: "distinct ds" and nd: "d \<notin> set ds"
    and bound: "\<forall>x\<in>set ds. x < length (blocks tr1)"
    and len: "length (independent_min_durations tr1) = length (blocks tr1)"
    using p(1,2) by auto
  note ih = Cons.IH[OF loop dist bound len]
  have here: "enabled inp ! d \<longrightarrow>
      independent_min_durations tr' ! d
        = brake_duration (brake (p_min (blocks tr' ! d))) + t_min (blocks tr' ! d)"
  proof
    assume en: "enabled inp ! d"
    from Cons.prems have "d < length (blocks tr)" "d < length (independent_min_durations tr)"
      by simp_all
    from p(8)[OF ok1 en this] ih nd show
      "independent_min_durations tr' ! d
        = brake_duration (brake (p_min (blocks tr' ! d))) + t_min (blocks tr' ! d)"
      by simp
  qed
  have others: "\<forall>k. k \<notin> set (d # ds) \<longrightarrow> blocks tr' ! k = blocks tr ! k
              \<and> independent_min_durations tr' ! k = independent_min_durations tr ! k"
    using ih p(5,6) by auto
  from here ih others show ?case by auto
qed

subsection \<open>The duration is not under a minimal duration\<close>

lemma synchronize_t_min:
  assumes "dofs = length blks"
    and "synchronize srt dofs blks fl profs discrete delta = Sync_True t ldof profs'"
  shows "\<forall>b\<in>set blks. t_min b \<le> t"
proof (cases "dofs = 1 \<and> fl = None \<and> \<not> discrete")
  case True
  with assms(1) obtain b where "blks = [b]" by (cases blks) auto
  with True assms(2) show ?thesis by (simp add: synchronize_def)
next
  case False
  with assms(2) obtain i where
    "sync_scan blks fl (possible_t_syncs dofs blks fl discrete delta)
       (drop (dofs - 1)
          (srt (\<lambda>i j. tsync_less (possible_t_syncs dofs blks fl discrete delta ! i)
                                 (possible_t_syncs dofs blks fl discrete delta ! j))
               [0 ..< (if any_interval dofs blks fl then 3 * dofs + 1 else dofs)]))
     = Some (i, Fin t)"
    unfolding synchronize_def Let_def
    by (auto split: if_splits option.splits prod.splits tsync.splits)
  then have "\<not> skipped blks fl (Fin t)"
    by (induction rule: sync_scan.induct) (auto split: if_splits)
  then show ?thesis
    by (auto simp: list_ex_iff is_blocked_def)
qed

subsection \<open>The whole call\<close>

text \<open>
  After a successful call, for every behaviour of the code outside trajectory.hpp: the
  \<open>t_min\<close> of every block is at most the duration, and the independent minimal
  duration reported for an enabled DoF is \<open>t_min\<close> plus the brake duration of
  \<open>p_min\<close>; with a single DoF, no floor and no quantum, it is the duration plus that
  brake duration. No call is made for a disabled DoF.
\<close>

lemma calculate_stages:
  assumes "calculate ext te opt inp delta tr = (Returned Working, tr')"
  obtains tr1 t ldof profs where
    "calculate_step1 ext inp [0 ..< length (profiles tr)] tr = (True, tr1)"
    "synchronize (std_sort ext) (degrees_of_freedom tr1) (blocks tr1) (minimum_duration inp)
       (profiles tr1) (duration_discretization inp = Discrete) delta = Sync_True t ldof profs"
    "tr' = tr1\<lparr>duration := t, profiles := profs\<rparr>
     \<or> calculate_modes ext te inp ldof (tr1\<lparr>duration := t, profiles := profs\<rparr>)
         = (Returned Working, tr')"
proof (cases "calculate_step1 ext inp [0 ..< length (profiles tr)] tr")
  case (Pair found tr1)
  show ?thesis
  proof (cases "synchronize (std_sort ext) (degrees_of_freedom tr1) (blocks tr1)
          (minimum_duration inp) (profiles tr1) (duration_discretization inp = Discrete) delta")
    case Sync_False
    with Pair assms show ?thesis
      by (cases found) (auto simp: calculate_def split: if_splits)
  next
    case Sync_Undefined
    with Pair assms show ?thesis
      by (cases found) (auto simp: calculate_def split: if_splits)
  next
    case (Sync_True t ldof profs)
    with Pair assms have found: found
      by (cases found) (auto simp: calculate_def split: if_splits)
    with Pair Sync_True assms
    have "tr' = tr1\<lparr>duration := t, profiles := profs\<rparr>
        \<or> calculate_modes ext te inp ldof (tr1\<lparr>duration := t, profiles := profs\<rparr>)
            = (Returned Working, tr')"
      by (auto simp: calculate_def Let_def split: if_splits)
    with Pair found Sync_True that show ?thesis by simp
  qed
qed

lemma calculate_reported_minimum:
  assumes res: "calculate ext te opt inp delta tr = (Returned Working, tr')"
    and lens: "length (blocks tr) = length (profiles tr)"
      "length (independent_min_durations tr) = length (profiles tr)"
      "degrees_of_freedom tr = length (profiles tr)"
    and dof: "dof < length (profiles tr)" "enabled inp ! dof"
  shows "independent_min_durations tr' ! dof
           = brake_duration (brake (p_min (blocks tr' ! dof))) + t_min (blocks tr' ! dof)
       \<and> t_min (blocks tr' ! dof) \<le> duration tr'"
proof -
  from res obtain tr1 t ldof profs where
    s1: "calculate_step1 ext inp [0 ..< length (profiles tr)] tr = (True, tr1)"
    and sy: "synchronize (std_sort ext) (degrees_of_freedom tr1) (blocks tr1)
       (minimum_duration inp) (profiles tr1) (duration_discretization inp = Discrete) delta
       = Sync_True t ldof profs"
    and rest: "tr' = tr1\<lparr>duration := t, profiles := profs\<rparr>
     \<or> calculate_modes ext te inp ldof (tr1\<lparr>duration := t, profiles := profs\<rparr>)
         = (Returned Working, tr')"
    by (rule calculate_stages)
  let ?tr2 = "tr1\<lparr>duration := t, profiles := profs\<rparr>"
  have k: "keeps_plan ?tr2 tr'"
    using rest calculate_modes_keeps[of ext te inp ldof ?tr2 "Returned Working" tr']
    by (auto simp: keeps_plan_refl)
  from calculate_step1_props[OF s1] lens
  have l1: "length (blocks tr1) = length (profiles tr)"
    "degrees_of_freedom tr1 = length (blocks tr1)"
    by simp_all
  have imd: "independent_min_durations tr1 ! dof
      = brake_duration (brake (p_min (blocks tr1 ! dof))) + t_min (blocks tr1 ! dof)"
    using calculate_step1_independent_min[OF s1] lens dof by simp
  from dof l1 have "blocks tr1 ! dof \<in> set (blocks tr1)" by simp
  with synchronize_t_min[OF l1(2) sy] have "t_min (blocks tr1 ! dof) \<le> t" by simp
  with imd k show ?thesis by (simp add: keeps_plan_def)
qed

lemma calculate_single_dof_reported_minimum:
  assumes res: "calculate ext te opt inp delta tr = (Returned Working, tr')"
    and lens: "length (profiles tr) = 1" "length (blocks tr) = 1"
      "length (independent_min_durations tr) = 1" "degrees_of_freedom tr = 1"
    and inp: "enabled inp ! 0" "minimum_duration inp = None"
      "duration_discretization inp \<noteq> Discrete"
  shows "independent_min_durations tr' ! 0
           = duration tr' + brake_duration (brake (p_min (blocks tr' ! 0)))"
proof -
  from res obtain tr1 t ldof profs where
    s1: "calculate_step1 ext inp [0 ..< length (profiles tr)] tr = (True, tr1)"
    and sy: "synchronize (std_sort ext) (degrees_of_freedom tr1) (blocks tr1)
       (minimum_duration inp) (profiles tr1) (duration_discretization inp = Discrete) delta
       = Sync_True t ldof profs"
    and rest: "tr' = tr1\<lparr>duration := t, profiles := profs\<rparr>
     \<or> calculate_modes ext te inp ldof (tr1\<lparr>duration := t, profiles := profs\<rparr>)
         = (Returned Working, tr')"
    by (rule calculate_stages)
  let ?tr2 = "tr1\<lparr>duration := t, profiles := profs\<rparr>"
  have k: "keeps_plan ?tr2 tr'"
    using rest calculate_modes_keeps[of ext te inp ldof ?tr2 "Returned Working" tr']
    by (auto simp: keeps_plan_refl)
  from calculate_step1_props[OF s1] lens have "degrees_of_freedom tr1 = 1" by simp
  with sy inp have t: "t = t_min (blocks tr1 ! 0)"
    by (simp add: synchronize_def)
  have "independent_min_durations tr' ! 0
           = brake_duration (brake (p_min (blocks tr' ! 0))) + t_min (blocks tr' ! 0)"
    using calculate_reported_minimum[OF res, of 0] lens inp by simp
  with k t show ?thesis by (simp add: keeps_plan_def)
qed

lemma calculate_disabled_no_call:
  assumes "\<not> enabled inp ! dof"
  shows "no_call_for dof tr (snd (calculate ext te opt inp delta tr))"
proof (cases "calculate_step1 ext inp [0 ..< length (profiles tr)] tr")
  case (Pair found tr1)
  from calculate_step1_props[OF Pair, of dof] assms
  have n1: "no_call_for dof tr tr1" by simp
  show ?thesis
  proof (cases "synchronize (std_sort ext) (degrees_of_freedom tr1) (blocks tr1)
          (minimum_duration inp) (profiles tr1) (duration_discretization inp = Discrete) delta")
    case Sync_False
    with Pair n1 show ?thesis by (cases found) (simp_all add: calculate_def)
  next
    case Sync_Undefined
    with Pair n1 show ?thesis by (cases found) (simp_all add: calculate_def)
  next
    case (Sync_True t ldof profs)
    let ?tr2 = "tr1\<lparr>duration := t, profiles := profs\<rparr>"
    from n1 have n2: "no_call_for dof tr (tr1\<lparr>duration := x, profiles := profs\<rparr>)" for x
      by (simp add: no_call_for_def)
    have "no_call_for dof tr (snd (calculate_modes ext te inp ldof ?tr2))"
      using calculate_modes_keeps[of ext te inp ldof ?tr2
              "fst (calculate_modes ext te inp ldof ?tr2)"
              "snd (calculate_modes ext te inp ldof ?tr2)" dof] assms n2
      by (auto intro: no_call_for_trans)
    with Pair Sync_True n1 n2 show ?thesis
      by (cases found) (simp_all add: calculate_def Let_def)
  qed
qed

subsection \<open>The claims on \<^verbatim>\<open>calculate\<close>\<close>

lemma calculate_time_sync_result:
  "fst (calculate_time_sync ext throw_error inp ldof tr) \<noteq> Returned ErrorTrajectoryDuration"
  by (simp add: calculate_time_sync_def split: prod.splits)

lemma calculate_modes_result:
  "fst (calculate_modes ext throw_error inp ldof tr) \<noteq> Returned ErrorTrajectoryDuration"
  by (simp add: calculate_modes_def Let_def calculate_time_sync_result
      split: prod.splits collinear.splits)

text \<open>
  Claim C9: \<^verbatim>\<open>calculate\<close> returns \<open>ErrorTrajectoryDuration\<close> exactly when the caller
  asked for the check of the maximal duration, Step 1 found a profile for every enabled
  DoF, the synchronization succeeded, and the synchronized duration is over 7600
  seconds. A caller who did not ask for the check never gets this error. The trajectory
  then holds the synchronized duration.
\<close>

theorem calculate_duration_error:
  "(fst (calculate ext throw_error return_error_at_maximal_duration inp delta_time tr)
      = Returned ErrorTrajectoryDuration
    \<longleftrightarrow>
    return_error_at_maximal_duration
    \<and> (\<exists>tr1 t_sync limiting_dof profs.
          calculate_step1 ext inp [0 ..< length (profiles tr)] tr = (True, tr1)
          \<and> synchronize (std_sort ext) (degrees_of_freedom tr1) (blocks tr1)
                (minimum_duration inp) (profiles tr1)
                (duration_discretization inp = Discrete) delta_time
              = Sync_True t_sync limiting_dof profs
          \<and> 7600 < t_sync))
   \<and> (fst (calculate ext throw_error return_error_at_maximal_duration inp delta_time tr)
         = Returned ErrorTrajectoryDuration
       \<longrightarrow> 7600 < duration (snd (calculate ext throw_error return_error_at_maximal_duration
                                     inp delta_time tr)))"
proof (cases "calculate_step1 ext inp [0 ..< length (profiles tr)] tr")
  case (Pair found tr1)
  show ?thesis
  proof (cases found)
    case False
    with Pair show ?thesis by (simp add: calculate_def)
  next
    case True
    show ?thesis
    proof (cases "synchronize (std_sort ext) (degrees_of_freedom tr1) (blocks tr1)
               (minimum_duration inp) (profiles tr1)
               (duration_discretization inp = Discrete) delta_time")
      case Sync_False
      with Pair True show ?thesis by (simp add: calculate_def)
    next
      case Sync_Undefined
      with Pair True show ?thesis by (simp add: calculate_def)
    next
      case (Sync_True t_sync limiting_dof profs)
      with Pair True show ?thesis
        using calculate_modes_result[of ext throw_error inp limiting_dof
                "tr1\<lparr>duration := t_sync, profiles := profs\<rparr>"]
        by (simp add: calculate_def Let_def)
    qed
  qed
qed

text \<open>
  Claim C9 at one DoF that takes 8000 seconds: the error with the check, none without;
  and at one DoF that takes 7000 seconds: no error with the check.
\<close>

theorem calculate_duration_error_witness:
  "fst (calculate ex_externals False True (ex_input [True] [0] [0] [8000]) 0
          (ex_trajectory 1 [ex_profile 0 UP 0] [ex_block0] 0)) = Returned ErrorTrajectoryDuration
   \<and> 7600 < duration (snd (calculate ex_externals False True (ex_input [True] [0] [0] [8000]) 0
          (ex_trajectory 1 [ex_profile 0 UP 0] [ex_block0] 0)))
   \<and> fst (calculate ex_externals False False (ex_input [True] [0] [0] [8000]) 0
          (ex_trajectory 1 [ex_profile 0 UP 0] [ex_block0] 0)) \<noteq> Returned ErrorTrajectoryDuration
   \<and> fst (calculate ex_externals False True (ex_input [True] [0] [0] [7000]) 0
          (ex_trajectory 1 [ex_profile 0 UP 0] [ex_block0] 0)) = Returned Working"
proof -
  let ?inp = "ex_input [True] [0] [0] [8000]"
  let ?tr = "ex_trajectory 1 [ex_profile 0 UP 0] [ex_block0] 0"
  have 1: "fst (calculate ex_externals False True ?inp 0 ?tr) = Returned ErrorTrajectoryDuration"
    by code_simp
  have 2: "fst (calculate ex_externals False True (ex_input [True] [0] [0] [7000]) 0 ?tr)
             = Returned Working"
    by code_simp
  from calculate_duration_error[of ex_externals False True ?inp 0 ?tr] 1
  have 3: "7600 < duration (snd (calculate ex_externals False True ?inp 0 ?tr))"
    by blast
  from calculate_duration_error[of ex_externals False False ?inp 0 ?tr]
  have 4: "fst (calculate ex_externals False False ?inp 0 ?tr) \<noteq> Returned ErrorTrajectoryDuration"
    by blast
  from 1 2 3 4 show ?thesis by blast
qed

text \<open>
  Claim C3 fails on the code where a DoF brakes. \<^verbatim>\<open>calculate\<close> stores
  \<^verbatim>\<open>p_min.brake.duration + t_min\<close> as the independent minimal duration, and the
  constructor of \<^verbatim>\<open>Block\<close> has added the brake's duration to \<open>t_min\<close> already. For
  one DoF that starts at velocity 2 under the bound 1, brakes for 1 second and then needs
  1 second, the trajectory's duration is 2 and the reported minimal duration is 3.
\<close>

theorem independent_min_duration_exceeds:
  "fst (calculate ex_externals False False (ex_input [True] [0] [2] [17 / 6]) 0
          (ex_trajectory 1 [ex_profile 0 UP 0] [ex_block0] 0)) = Returned Working
   \<and> duration (snd (calculate ex_externals False False (ex_input [True] [0] [2] [17 / 6]) 0
          (ex_trajectory 1 [ex_profile 0 UP 0] [ex_block0] 0))) = 2
   \<and> independent_min_durations
        (snd (calculate ex_externals False False (ex_input [True] [0] [2] [17 / 6]) 0
          (ex_trajectory 1 [ex_profile 0 UP 0] [ex_block0] 0))) ! 0 = 3"
  by code_simp

lemma time_sync_dof_frame:
  assumes "time_sync_dof ext inp ldof d tr = (ok, tr')"
  shows "duration tr' = duration tr" "blocks tr' = blocks tr"
    "inp_per_dof_synchronization tr' = inp_per_dof_synchronization tr"
    "length (profiles tr') = length (profiles tr)"
    "k \<noteq> d \<Longrightarrow> profiles tr' ! k = profiles tr ! k"
    "trace tr' = trace tr \<or> trace tr' = trace tr @ [Call_Step2 d]"
  using assms unfolding time_sync_dof_def Let_def
  by (auto split: if_splits)

lemma time_sync_dof_reuse:
  assumes "dof < length (profiles tr)" "enabled inp ! dof" "int dof \<noteq> ldof"
    and "takes_part inp tr dof" "extremal_match tr dof"
    and "time_sync_dof ext inp ldof dof tr = (ok, tr')"
  shows "ok" "trace tr' = trace tr" "first_match tr dof (profiles tr' ! dof)"
  using assms
  unfolding time_sync_dof_def Let_def takes_part_def t_profile_of_def extremal_match_def
    first_match_def
  by (auto split: if_splits option.splits)

lemma match_frame:
  assumes "duration tr' = duration tr" "blocks tr' = blocks tr"
    "inp_per_dof_synchronization tr' = inp_per_dof_synchronization tr"
    "profiles tr' ! dof = profiles tr ! dof"
  shows "takes_part inp tr' dof = takes_part inp tr dof"
    "extremal_match tr' dof = extremal_match tr dof"
    "first_match tr' dof p = first_match tr dof p"
proof -
  have tp: "t_profile_of tr' dof = t_profile_of tr dof"
    using assms by (simp add: t_profile_of_def)
  show "takes_part inp tr' dof = takes_part inp tr dof"
    unfolding takes_part_def assms(3) ..
  show "extremal_match tr' dof = extremal_match tr dof"
    unfolding extremal_match_def tp assms(2) ..
  show "first_match tr' dof p = first_match tr dof p"
    unfolding first_match_def tp assms(2) ..
qed

lemma time_synchronization_other:
  assumes "dof \<notin> set dofs"
    and "time_synchronization ext inp ldof dofs tr = (ok, tr')"
  shows "profiles tr' ! dof = profiles tr ! dof
       \<and> (\<exists>new. trace tr' = trace tr @ new \<and> Call_Step2 dof \<notin> set new)"
  using assms
proof (induction dofs arbitrary: tr)
  case Nil
  then show ?case by simp
next
  case (Cons d dofs)
  obtain ok1 tr1 where d: "time_sync_dof ext inp ldof d tr = (ok1, tr1)"
    by (cases "time_sync_dof ext inp ldof d tr")
  from Cons.prems have ne: "dof \<noteq> d" and rest: "dof \<notin> set dofs" by auto
  have p1: "profiles tr1 ! dof = profiles tr ! dof"
    using time_sync_dof_frame(5)[OF d ne] .
  have t1: "\<exists>new. trace tr1 = trace tr @ new \<and> Call_Step2 dof \<notin> set new"
  proof -
    from time_sync_dof_frame(6)[OF d]
    have "trace tr1 = trace tr @ [] \<or> trace tr1 = trace tr @ [Call_Step2 d]" by simp
    with ne show ?thesis by auto
  qed
  show ?case
  proof (cases ok1)
    case False
    with d Cons.prems(2) have "tr' = tr1" by simp
    with p1 t1 show ?thesis by simp
  next
    case True
    with d Cons.prems(2) have "time_synchronization ext inp ldof dofs tr1 = (ok, tr')" by simp
    from Cons.IH[OF rest this] p1 t1 show ?thesis by auto
  qed
qed

lemma time_synchronization_reuse:
  assumes "distinct dofs" "dof < length (profiles tr)" "enabled inp ! dof" "int dof \<noteq> ldof"
    and "takes_part inp tr dof" "extremal_match tr dof"
    and "time_synchronization ext inp ldof dofs tr = (ok, tr')"
  shows "(\<exists>new. trace tr' = trace tr @ new \<and> Call_Step2 dof \<notin> set new)
       \<and> (ok \<and> dof \<in> set dofs \<longrightarrow> first_match tr dof (profiles tr' ! dof))"
  using assms
proof (induction dofs arbitrary: tr)
  case Nil
  then show ?case by simp
next
  case (Cons d dofs)
  obtain ok1 tr1 where d: "time_sync_dof ext inp ldof d tr = (ok1, tr1)"
    by (cases "time_sync_dof ext inp ldof d tr")
  note fr = time_sync_dof_frame[OF d]
  show ?case
  proof (cases "d = dof")
    case True
    from Cons.prems True have rest: "dof \<notin> set dofs" by simp
    from d True have d': "time_sync_dof ext inp ldof dof tr = (ok1, tr1)" by simp
    note re = time_sync_dof_reuse[OF Cons.prems(2-6) d']
    from re(1) d Cons.prems(7)
    have loop: "time_synchronization ext inp ldof dofs tr1 = (ok, tr')" by simp
    from time_synchronization_other[OF rest loop] re(2,3)
    show ?thesis by auto
  next
    case False
    then have ne: "dof \<noteq> d" by simp
    have p1: "profiles tr1 ! dof = profiles tr ! dof" using fr(5)[OF ne] .
    note mf = match_frame[OF fr(1) fr(2) fr(3) p1]
    have t1: "\<exists>new. trace tr1 = trace tr @ new \<and> Call_Step2 dof \<notin> set new"
    proof -
      from fr(6) have "trace tr1 = trace tr @ [] \<or> trace tr1 = trace tr @ [Call_Step2 d]"
        by simp
      with ne show ?thesis by auto
    qed
    show ?thesis
    proof (cases ok1)
      case False
      with d Cons.prems(7) have "tr' = tr1" "\<not> ok" by auto
      with t1 show ?thesis by simp
    next
      case True
      with d Cons.prems(7)
      have loop: "time_synchronization ext inp ldof dofs tr1 = (ok, tr')" by simp
      from Cons.prems(1) have dist: "distinct dofs" by simp
      from Cons.prems(2) fr(4) have len: "dof < length (profiles tr1)" by simp
      from Cons.prems(5) mf(1) have tp: "takes_part inp tr1 dof" by simp
      from Cons.prems(6) mf(2) have em: "extremal_match tr1 dof" by simp
      from Cons.IH[OF dist len Cons.prems(3,4) tp em loop] t1 mf(3) ne
      show ?thesis by auto
    qed
  qed
qed

text \<open>
  Claim C4, amended: in the time synchronization, for an enabled DoF that is not the
  limiting one and whose mode takes part: if \<open>t_profile\<close>, the duration minus the
  DoF's brake duration, is within \<open>eps\<close> of the block's \<open>t_min\<close>, \<open>a.right\<close> or
  \<open>b.right\<close>, then the loop makes no call of Step 2 for the DoF, and when it ends
  without a failure the DoF's profile is the stored profile of the first of the three, in
  this order, that \<open>t_profile\<close> is within \<open>eps\<close> of.
\<close>

theorem time_synchronization_reuses_profile:
  assumes "dof < length (profiles tr)" "enabled inp ! dof" "int dof \<noteq> limiting_dof"
    and "takes_part inp tr dof"
    and "\<bar>t_profile_of tr dof - t_min (blocks tr ! dof)\<bar> < eps
         \<or> (\<exists>a. blk_a (blocks tr ! dof) = Some a \<and> \<bar>t_profile_of tr dof - i_right a\<bar> < eps)
         \<or> (\<exists>b. blk_b (blocks tr ! dof) = Some b \<and> \<bar>t_profile_of tr dof - i_right b\<bar> < eps)"
    and "calculate_time_sync ext throw_error inp limiting_dof tr = (r, tr')"
  shows "(\<exists>new. trace tr' = trace tr @ new \<and> Call_Step2 dof \<notin> set new)
       \<and> (r = Returned Working \<longrightarrow>
            (if \<bar>t_profile_of tr dof - t_min (blocks tr ! dof)\<bar> < eps
             then profiles tr' ! dof = p_min (blocks tr ! dof)
             else if \<exists>a. blk_a (blocks tr ! dof) = Some a
                        \<and> \<bar>t_profile_of tr dof - i_right a\<bar> < eps
             then \<exists>a. blk_a (blocks tr ! dof) = Some a \<and> profiles tr' ! dof = i_profile a
             else \<exists>b. blk_b (blocks tr ! dof) = Some b \<and> profiles tr' ! dof = i_profile b))"
proof -
  obtain ok where loop:
    "time_synchronization ext inp limiting_dof [0 ..< length (profiles tr)] tr = (ok, tr')"
    and r: "r = Returned Working \<longrightarrow> ok"
    using assms(6) unfolding calculate_time_sync_def
    by (auto split: prod.splits if_splits)
  from assms(5) have em: "extremal_match tr dof" by (simp add: extremal_match_def)
  have "distinct [0 ..< length (profiles tr)]" by simp
  from time_synchronization_reuse[OF this assms(1-4) em loop] r assms(1)
  show ?thesis by (auto simp: first_match_def)
qed

text \<open>
  Claim C4 as stated fails where \<open>t_profile\<close> is within \<open>eps\<close> of \<open>t_min\<close> and of
  \<open>a.right\<close>: for the block of three profiles of duration 1 and the duration 1, the
  time synchronization takes \<open>p_min\<close> for DoF 0, which is not \<open>a.profile\<close>.
\<close>

theorem time_synchronization_order_counterexample:
  "enabled (ex_input [True, True] [0, 0] [0, 0] [1, 1]) ! 0
   \<and> takes_part (ex_input [True, True] [0, 0] [0, 0] [1, 1]) ex_tie_state 0
   \<and> blk_a (blocks ex_tie_state ! 0)
       = Some \<lparr>i_left = 1, i_right = 1, i_profile = ex_profile 1 DOWN 0\<rparr>
   \<and> \<bar>t_profile_of ex_tie_state 0 - 1\<bar> < eps
   \<and> fst (calculate_time_sync ex_externals False (ex_input [True, True] [0, 0] [0, 0] [1, 1]) 1
            ex_tie_state) = Returned Working
   \<and> profiles (snd (calculate_time_sync ex_externals False
                        (ex_input [True, True] [0, 0] [0, 0] [1, 1]) 1 ex_tie_state)) ! 0
       = ex_profile 1 UP 0
   \<and> ex_profile 1 UP 0 \<noteq> ex_profile 1 DOWN 0"
  by code_simp

text \<open>
  The amended claim C4 at the state whose duration 5 is the right end of the interval of
  DoF 0: the profile stored with the interval is taken, and Step 2 is not called for
  DoF 0.
\<close>

theorem time_synchronization_reuses_profile_witness:
  "fst (calculate_time_sync ex_externals False (ex_input [True, True] [0, 0] [0, 0] [1, 5]) 1
          ex_interval_state) = Returned Working
   \<and> profiles (snd (calculate_time_sync ex_externals False
                       (ex_input [True, True] [0, 0] [0, 0] [1, 5]) 1 ex_interval_state)) ! 0
       = ex_profile 5 DOWN 0
   \<and> Call_Step2 0 \<notin> set (trace (snd (calculate_time_sync ex_externals False
                       (ex_input [True, True] [0, 0] [0, 0] [1, 5]) 1 ex_interval_state)))"
proof -
  let ?inp = "ex_input [True, True] [0, 0] [0, 0] [1, 5]"
  let ?r = "calculate_time_sync ex_externals False ?inp 1 ex_interval_state"
  have len: "0 < length (profiles ex_interval_state)" by code_simp
  have en: "enabled ?inp ! 0" by code_simp
  have lim: "int 0 \<noteq> 1" by simp
  have tp: "takes_part ?inp ex_interval_state 0" by code_simp
  have blk: "blocks ex_interval_state ! 0 = ex_block_a (ex_profile 1 UP 0) 2 (ex_profile 5 DOWN 0)"
    by (simp add: ex_interval_state_def ex_trajectory_def)
  have t: "t_profile_of ex_interval_state 0 = 5" by code_simp
  have a: "blk_a (ex_block_a (ex_profile 1 UP 0) 2 (ex_profile 5 DOWN 0))
             = Some \<lparr>i_left = 2, i_right = 5, i_profile = ex_profile 5 DOWN 0\<rparr>"
    by code_simp
  have tm: "t_min (ex_block_a (ex_profile 1 UP 0) 2 (ex_profile 5 DOWN 0)) = 1" by code_simp
  have eps: "0 < eps" "\<not> 4 < eps" by (simp_all add: eps_def)
  have m: "\<bar>t_profile_of ex_interval_state 0 - t_min (blocks ex_interval_state ! 0)\<bar> < eps
         \<or> (\<exists>a. blk_a (blocks ex_interval_state ! 0) = Some a
                \<and> \<bar>t_profile_of ex_interval_state 0 - i_right a\<bar> < eps)
         \<or> (\<exists>b. blk_b (blocks ex_interval_state ! 0) = Some b
                \<and> \<bar>t_profile_of ex_interval_state 0 - i_right b\<bar> < eps)"
    unfolding blk t a using eps by simp
  have r: "?r = (fst ?r, snd ?r)" by simp
  have w: "fst ?r = Returned Working" "trace ex_interval_state = []" by code_simp+
  from time_synchronization_reuses_profile[OF len en lim tp m r] w
  show ?thesis
    unfolding blk t a tm using eps by auto
qed

text \<open>
  Claim C10 fails on the code where the block of a disabled DoF, left from an earlier
  call, gives the synchronized duration. \<^verbatim>\<open>calculate\<close> sets \<open>pf, vf, af\<close> and
  \<open>t_sum[6]\<close> of the disabled DoF and leaves its block; \<^verbatim>\<open>synchronize\<close> reads the
  blocks of all DoFs and writes the profile of the limiting one. In the second call DoF 1
  is disabled at position 7; its block of the first call has \<open>t_min = 10\<close>, DoF 0
  needs 1 second. The duration is 10, the profile of DoF 1 is the one of the first call,
  and DoF 1 is sampled at position 10.
\<close>

theorem disabled_dof_stale_block:
  "duration ex_first_call = 10
   \<and> \<not> enabled (ex_input [True, False] [1, 7] [0, 0] [2, 7]) ! 1
   \<and> current_position (ex_input [True, False] [1, 7] [0, 0] [2, 7]) ! 1 = 7
   \<and> fst (calculate ex_externals False False (ex_input [True, False] [1, 7] [0, 0] [2, 7]) 0
            ex_first_call) = Returned Working
   \<and> duration (snd (calculate ex_externals False False
                        (ex_input [True, False] [1, 7] [0, 0] [2, 7]) 0 ex_first_call)) = 10
   \<and> pf (profiles (snd (calculate ex_externals False False
                        (ex_input [True, False] [1, 7] [0, 0] [2, 7]) 0 ex_first_call)) ! 1) = 10
   \<and> t_sum (profiles (snd (calculate ex_externals False False
                        (ex_input [True, False] [1, 7] [0, 0] [2, 7]) 0 ex_first_call)) ! 1) ! 6
       = 10
   \<and> at_time (snd (calculate ex_externals False False
                        (ex_input [True, False] [1, 7] [0, 0] [2, 7]) 0 ex_first_call))
        10 [0, 0] [0, 0] [0, 0]
       = Inr (([2, 10], [0, 0], [0, 0]), 1)"
  by code_simp

text \<open>
  Claim C10 at the second call: the sample of DoF 1 that the claim describes, the
  position 7 at rest, is not the sample \<^verbatim>\<open>at_time\<close> returns.
\<close>

theorem disabled_dof_stale_block_witness:
  "at_time (snd (calculate ex_externals False False
                   (ex_input [True, False] [1, 7] [0, 0] [2, 7]) 0 ex_first_call))
     10 [0, 0] [0, 0] [0, 0]
   \<noteq> Inr (([2, 7], [0, 0], [0, 0]), 1)"
  using disabled_dof_stale_block by simp

end
